theory Spec2Isabelle
  imports Complex_Main "HOL-Library.FSet" "HOL-Library.Multiset"
begin

section \<open>JavaScript values\<close>

text \<open>
  The three variants of the table component (\<^verbatim>\<open>src/Component.svelte\<close>, the fixture variant;
  \<^verbatim>\<open>unnamed/part_000\<close>, the API variant; \<^verbatim>\<open>unnamed/part_001\<close>, the data-provider variant)
  work on schema-less rows whose fields hold JavaScript values. The values modelled are
  the primitives and arrays of them. Numbers are the integers (the integer-valued
  doubles); \<open>NaN\<close> only appears as the failed result of a conversion to a number, which
  is \<open>None\<close> here. Strings are lists of \<^typ>\<open>char\<close>, one per code unit, and the
  case mapping covers the letters \<open>A\<close> to \<open>Z\<close>.
\<close>

datatype jsval =
    JUndefined
  | JNull
  | JBool bool
  | JNum int
  | JStr string
  | JArr "jsval list"

text \<open>A row is an object; its fields are kept in insertion order. \<open>row[col]\<close> of a
  missing field is \<open>undefined\<close>.\<close>

type_synonym row = "(string \<times> jsval) list"

definition field :: "row \<Rightarrow> string \<Rightarrow> jsval" where
  "field r c = (case map_of r c of None \<Rightarrow> JUndefined | Some v \<Rightarrow> v)"

text \<open>Truthiness, as \<open>||\<close>, \<open>?:\<close> and \<open>if\<close> test it.\<close>

fun truthy :: "jsval \<Rightarrow> bool" where
  "truthy JUndefined = False"
| "truthy JNull = False"
| "truthy (JBool b) = b"
| "truthy (JNum n) = (n \<noteq> 0)"
| "truthy (JStr s) = (s \<noteq> [])"
| "truthy (JArr xs) = True"

definition js_or :: "jsval \<Rightarrow> jsval \<Rightarrow> jsval" where
  "js_or a b = (if truthy a then a else b)"

subsection \<open>Conversion to strings\<close>

definition digit_char :: "nat \<Rightarrow> char" where
  "digit_char d = char_of (48 + d)"

fun nat_digits :: "nat \<Rightarrow> string" where
  "nat_digits n = (if n < 10 then [digit_char n] else nat_digits (n div 10) @ [digit_char (n mod 10)])"

declare nat_digits.simps [simp del]

definition int_digits :: "int \<Rightarrow> string" where
  "int_digits i = (if i < 0 then CHR ''-'' # nat_digits (nat (- i)) else nat_digits (nat i))"

fun join :: "string \<Rightarrow> string list \<Rightarrow> string" where
  "join sep [] = []"
| "join sep [s] = s"
| "join sep (s # t # ss) = s @ sep @ join sep (t # ss)"

text \<open>\<open>String(v)\<close>. An array is joined with commas, its \<open>null\<close> and \<open>undefined\<close>
  elements giving the empty string (\<open>Array.prototype.join\<close>).\<close>

fun js_String :: "jsval \<Rightarrow> string" where
  "js_String JUndefined = ''undefined''"
| "js_String JNull = ''null''"
| "js_String (JBool b) = (if b then ''true'' else ''false'')"
| "js_String (JNum n) = int_digits n"
| "js_String (JStr s) = s"
| "js_String (JArr xs) =
     join '','' (map (\<lambda>x. if x = JUndefined \<or> x = JNull then [] else js_String x) xs)"

definition array_join :: "string \<Rightarrow> jsval list \<Rightarrow> string" where
  "array_join sep xs =
     join sep (map (\<lambda>x. if x = JUndefined \<or> x = JNull then [] else js_String x) xs)"

definition lower_char :: "char \<Rightarrow> char" where
  "lower_char c =
     (if 65 \<le> (of_char c :: nat) \<and> (of_char c :: nat) \<le> 90
      then char_of ((of_char c :: nat) + 32) else c)"

definition toLowerCase :: "string \<Rightarrow> string" where
  "toLowerCase s = map lower_char s"

text \<open>\<open>s.includes(t)\<close>: \<open>t\<close> occurs in \<open>s\<close> as a contiguous piece.\<close>

fun starts_with :: "string \<Rightarrow> string \<Rightarrow> bool" where
  "starts_with s [] = True"
| "starts_with [] (c # t) = False"
| "starts_with (d # s) (c # t) = (d = c \<and> starts_with s t)"

fun str_includes :: "string \<Rightarrow> string \<Rightarrow> bool" where
  "str_includes [] t = (t = [])"
| "str_includes (c # s) t = (starts_with (c # s) t \<or> str_includes s t)"

section \<open>Sort configuration and \<open>handleSort\<close>\<close>

text \<open>The direction is one of the strings \<open>"asc"\<close> and \<open>"desc"\<close>: it starts as
  \<open>"asc"\<close> and \<open>handleSort\<close> is the only assignment. The key is \<open>null\<close> or a column
  name.\<close>

datatype direction = Asc | Desc

record sortConfig =
  key :: "string option"
  direction :: direction

text \<open>
  \<^verbatim>\<open>
  function handleSort(key) {
    if (!sortable) return;
    sortConfig = {
      key,
      direction: sortConfig.key === key && sortConfig.direction === "asc" ? "desc" : "asc"
    };
  }\<close>
\<close>

definition handleSort :: "bool \<Rightarrow> string \<Rightarrow> sortConfig \<Rightarrow> sortConfig" where
  "handleSort sortable k cfg =
     (if \<not> sortable then cfg
      else \<lparr> key = Some k,
             direction = (if key cfg = Some k \<and> direction cfg = Asc then Desc else Asc) \<rparr>)"

section \<open>Page stage\<close>

text \<open>\<open>xs.slice(s, e)\<close>: a negative index counts from the end, and both ends are clamped
  into the array.\<close>

definition js_slice :: "'a list \<Rightarrow> int \<Rightarrow> int \<Rightarrow> 'a list" where
  "js_slice xs s e =
     (let n = int (length xs);
          k = (if s < 0 then max (n + s) 0 else min s n);
          final = (if e < 0 then max (n + e) 0 else min e n)
      in take (nat (final - k)) (drop (nat k) xs))"

text \<open>
  \<^verbatim>\<open>
  $: totalPages = Math.ceil(sortedData.length / itemsPerPage);
  $: startIndex = (currentPage - 1) * itemsPerPage;
  $: paginatedData = sortedData.slice(startIndex, startIndex + itemsPerPage);\<close>
  \<open>itemsPerPage\<close> is an integer other than zero here (division by zero gives
  \<open>Infinity\<close> or \<open>NaN\<close> in the source).
\<close>

definition totalPages :: "'a list \<Rightarrow> int \<Rightarrow> int" where
  "totalPages rs itemsPerPage = \<lceil>real (length rs) / real_of_int itemsPerPage\<rceil>"

definition startIndex :: "int \<Rightarrow> int \<Rightarrow> int" where
  "startIndex cp itemsPerPage = (cp - 1) * itemsPerPage"

definition paginatedData :: "'a list \<Rightarrow> int \<Rightarrow> int \<Rightarrow> 'a list" where
  "paginatedData rs cp itemsPerPage =
     js_slice rs (startIndex cp itemsPerPage) (startIndex cp itemsPerPage + itemsPerPage)"

text \<open>
  The page buttons, from \<open>totalPages\<close> (\<open>tp\<close>) and \<open>currentPage\<close> (\<open>cp\<close>):
  \<^verbatim>\<open>
  Array.from({length: Math.min(5, totalPages)}, (_, i) => {
    if (totalPages <= 5) return i + 1;
    if (currentPage <= 3) return i + 1;
    if (currentPage >= totalPages - 2) return totalPages - 4 + i;
    return currentPage - 2 + i;
  })\<close>
\<close>

definition pageButton :: "int \<Rightarrow> int \<Rightarrow> int \<Rightarrow> int" where
  "pageButton tp cp i =
     (if tp \<le> 5 then i + 1
      else if cp \<le> 3 then i + 1
      else if cp \<ge> tp - 2 then tp - 4 + i
      else cp - 2 + i)"

definition pageWindow :: "int \<Rightarrow> int \<Rightarrow> int list" where
  "pageWindow tp cp = map (pageButton tp cp) [0 .. min 5 tp - 1]"

section \<open>Filter stage\<close>

text \<open>
  \<^verbatim>\<open>
  $: filteredData = allRows.filter(item => {
    if (!searchTerm) return true;
    return availableColumns.some(col =>
      String(item[col] || "").toLowerCase().includes(searchTerm.toLowerCase())
    );
  });\<close>
  The data-provider variant writes the test as \<open>searchTerm === "" || columns.some(...)\<close>;
  the search term is a string, so the two agree.
\<close>

definition cellMatches :: "string \<Rightarrow> row \<Rightarrow> string \<Rightarrow> bool" where
  "cellMatches searchTerm item col =
     str_includes (toLowerCase (js_String (js_or (field item col) (JStr []))))
       (toLowerCase searchTerm)"

definition rowMatches :: "string \<Rightarrow> string list \<Rightarrow> row \<Rightarrow> bool" where
  "rowMatches searchTerm cols item =
     (if searchTerm = [] then True else list_ex (cellMatches searchTerm item) cols)"

definition filteredData :: "row list \<Rightarrow> string \<Rightarrow> string list \<Rightarrow> row list" where
  "filteredData allRows searchTerm cols = filter (rowMatches searchTerm cols) allRows"

section \<open>Sort stage\<close>

subsection \<open>The relational operator\<close>

text \<open>
  \<open>a < b\<close> compares two strings by code units and everything else as numbers, the
  comparison being false when either side converts to \<open>NaN\<close>. A string converts to a
  number when, white space trimmed, it is empty or an optionally signed run of decimal
  digits; the other numeric literals of the language denote no number of this model.
\<close>

definition is_space :: "char \<Rightarrow> bool" where
  "is_space c = ((of_char c :: nat) \<in> {9, 10, 11, 12, 13, 32})"

definition is_digit :: "char \<Rightarrow> bool" where
  "is_digit c = (48 \<le> (of_char c :: nat) \<and> (of_char c :: nat) \<le> 57)"

definition digits_value :: "string \<Rightarrow> int" where
  "digits_value s = foldl (\<lambda>acc c. 10 * acc + (int (of_char c) - 48)) 0 s"

definition trim :: "string \<Rightarrow> string" where
  "trim s = rev (dropWhile is_space (rev (dropWhile is_space s)))"

definition unsigned_number :: "string \<Rightarrow> int option" where
  "unsigned_number s = (if s \<noteq> [] \<and> list_all is_digit s then Some (digits_value s) else None)"

definition StringToNumber :: "string \<Rightarrow> int option" where
  "StringToNumber s =
     (case trim s of
        [] \<Rightarrow> Some 0
      | c # t \<Rightarrow>
          if c = CHR ''-'' then map_option uminus (unsigned_number t)
          else if c = CHR ''+'' then unsigned_number t
          else unsigned_number (c # t))"

fun ToNumber :: "jsval \<Rightarrow> int option" where
  "ToNumber JUndefined = None"
| "ToNumber JNull = Some 0"
| "ToNumber (JBool b) = Some (if b then 1 else 0)"
| "ToNumber (JNum n) = Some n"
| "ToNumber (JStr s) = StringToNumber s"
| "ToNumber (JArr xs) = StringToNumber (js_String (JArr xs))"

fun str_lt :: "string \<Rightarrow> string \<Rightarrow> bool" where
  "str_lt [] [] = False"
| "str_lt [] (d # t) = True"
| "str_lt (c # s) [] = False"
| "str_lt (c # s) (d # t) =
     ((of_char c :: nat) < of_char d \<or> (c = d \<and> str_lt s t))"

fun primitive_string :: "jsval \<Rightarrow> string option" where
  "primitive_string (JStr s) = Some s"
| "primitive_string (JArr xs) = Some (js_String (JArr xs))"
| "primitive_string v = None"

definition js_lt :: "jsval \<Rightarrow> jsval \<Rightarrow> bool" where
  "js_lt a b =
     (case (primitive_string a, primitive_string b) of
        (Some s, Some t) \<Rightarrow> str_lt s t
      | _ \<Rightarrow> (case (ToNumber a, ToNumber b) of
                (Some m, Some n) \<Rightarrow> m < n
              | _ \<Rightarrow> False))"

subsection \<open>\<open>Array.prototype.sort\<close>\<close>

text \<open>
  The language requires \<open>sort\<close> to be stable and, for a consistent comparator, to return
  the elements in the comparator's order; that determines the result. It is modelled by
  the stable insertion sort: an element moves past another only when the comparator
  puts it strictly after. For a comparator that is not consistent the language leaves
  the order to the implementation, and this model is one such implementation.
\<close>

fun insert_by :: "('a \<Rightarrow> 'a \<Rightarrow> int) \<Rightarrow> 'a \<Rightarrow> 'a list \<Rightarrow> 'a list" where
  "insert_by cmp x [] = [x]"
| "insert_by cmp x (y # ys) = (if cmp x y > 0 then y # insert_by cmp x ys else x # y # ys)"

definition js_sort :: "('a \<Rightarrow> 'a \<Rightarrow> int) \<Rightarrow> 'a list \<Rightarrow> 'a list" where
  "js_sort cmp xs = foldr (insert_by cmp) xs []"

text \<open>
  \<^verbatim>\<open>
  $: sortedData = sortConfig.key ?
    [...filteredData].sort((a, b) => {
      const aValue = a[sortConfig.key];
      const bValue = b[sortConfig.key];
      if (aValue < bValue) return sortConfig.direction === "asc" ? -1 : 1;
      if (aValue > bValue) return sortConfig.direction === "asc" ? 1 : -1;
      return 0;
    }) : filteredData;\<close>
\<close>

definition compareRows :: "string \<Rightarrow> direction \<Rightarrow> row \<Rightarrow> row \<Rightarrow> int" where
  "compareRows k d a b =
     (let aValue = field a k; bValue = field b k
      in if js_lt aValue bValue then (if d = Asc then - 1 else 1)
         else if js_lt bValue aValue then (if d = Asc then 1 else - 1)
         else 0)"

definition sortedData :: "sortConfig \<Rightarrow> row list \<Rightarrow> row list" where
  "sortedData cfg filtered =
     (case key cfg of
        None \<Rightarrow> filtered
      | Some k \<Rightarrow> if k = [] then filtered else js_sort (compareRows k (direction cfg)) filtered)"

subsection \<open>Order of the rows under a key\<close>

text \<open>
  \<open>keyLe k a b\<close>: the comparator does not put \<open>a\<close> after \<open>b\<close> when ascending.
  \<open>sameKey k a b\<close>: the comparator returns \<open>0\<close>, the two rows tie. The comparator is
  consistent on a list of rows when \<open>keyLe\<close> is transitive on them; it is then a total
  preorder of the rows. That is so when the key values are all strings or all numbers,
  and fails when a row lacks the key between two rows that have it.
\<close>

definition keyLe :: "string \<Rightarrow> row \<Rightarrow> row \<Rightarrow> bool" where
  "keyLe k a b = (\<not> js_lt (field b k) (field a k))"

definition sameKey :: "string \<Rightarrow> row \<Rightarrow> row \<Rightarrow> bool" where
  "sameKey k a b = (\<not> js_lt (field a k) (field b k) \<and> \<not> js_lt (field b k) (field a k))"

definition consistentOrder :: "string \<Rightarrow> row list \<Rightarrow> bool" where
  "consistentOrder k rs =
     (\<forall>a \<in> set rs. \<forall>b \<in> set rs. \<forall>c \<in> set rs. keyLe k a b \<and> keyLe k b c \<longrightarrow> keyLe k a c)"

section \<open>Row identity\<close>

subsection \<open>\<open>JSON.stringify\<close>\<close>

definition hex_digit :: "nat \<Rightarrow> char" where
  "hex_digit d = (if d < 10 then char_of (48 + d) else char_of (87 + d))"

definition json_char :: "char \<Rightarrow> string" where
  "json_char c =
     (let n = (of_char c :: nat)
      in if n = 0x22 then [CHR 0x5C, CHR 0x22]
         else if n = 0x5C then [CHR 0x5C, CHR 0x5C]
         else if n = 8 then [CHR 0x5C, CHR ''b'']
         else if n = 9 then [CHR 0x5C, CHR ''t'']
         else if n = 10 then [CHR 0x5C, CHR ''n'']
         else if n = 12 then [CHR 0x5C, CHR ''f'']
         else if n = 13 then [CHR 0x5C, CHR ''r'']
         else if n < 32 then [CHR 0x5C, CHR ''u'', CHR ''0'', CHR ''0'',
                              hex_digit (n div 16), hex_digit (n mod 16)]
         else [c])"

definition json_quote :: "string \<Rightarrow> string" where
  "json_quote s = CHR 0x22 # concat (map json_char s) @ [CHR 0x22]"

fun json_value :: "jsval \<Rightarrow> string" where
  "json_value JUndefined = ''null''"
| "json_value JNull = ''null''"
| "json_value (JBool b) = (if b then ''true'' else ''false'')"
| "json_value (JNum n) = int_digits n"
| "json_value (JStr s) = json_quote s"
| "json_value (JArr xs) = ''['' @ join '','' (map json_value xs) @ '']''"

text \<open>\<open>JSON.stringify(row)\<close>: the fields in order (column names are not array
  indices, which the language would move to the front), those holding \<open>undefined\<close>
  left out.\<close>

definition JSON_stringify :: "row \<Rightarrow> string" where
  "JSON_stringify r =
     ''{'' @ join '','' (map (\<lambda>(k, v). json_quote k @ '':'' @ json_value v)
                        (filter (\<lambda>(k, v). v \<noteq> JUndefined) r)) @ ''}''"

subsection \<open>The identity chains\<close>

text \<open>
  Fixture variant (\<^verbatim>\<open>Component.svelte\<close>):
  \<^verbatim>\<open>
  function getRowId(row) {
    return row._id || row.id || row.customerid || row._rev || JSON.stringify(row);
  }\<close>
\<close>

definition getRowId :: "row \<Rightarrow> jsval" where
  "getRowId r =
     js_or (js_or (js_or (js_or (field r ''_id'') (field r ''id'')) (field r ''customerid''))
              (field r ''_rev''))
       (JStr (JSON_stringify r))"

text \<open>
  API variant (\<^verbatim>\<open>part_000\<close>): \<open>getRowId\<close> is
  \<^verbatim>\<open>return row._id || row.id || row._rev || JSON.stringify(row);\<close>
  and \<open>handleSelectAll\<close> maps the page with its own expression,
  \<^verbatim>\<open>item => item._id || item.id || item._rev\<close>.
\<close>

definition getRowId_api :: "row \<Rightarrow> jsval" where
  "getRowId_api r =
     js_or (js_or (js_or (field r ''_id'') (field r ''id'')) (field r ''_rev''))
       (JStr (JSON_stringify r))"

definition selectAllId_api :: "row \<Rightarrow> jsval" where
  "selectAllId_api item = js_or (js_or (field item ''_id'') (field item ''id'')) (field item ''_rev'')"

text \<open>Data-provider variant (\<^verbatim>\<open>part_001\<close>): \<open>row._id || row.id\<close> everywhere, no
  \<open>getRowId\<close>.\<close>

definition rowId_provider :: "row \<Rightarrow> jsval" where
  "rowId_provider r = js_or (field r ''_id'') (field r ''id'')"

section \<open>Selection tracker\<close>

text \<open>
  \<open>selectedRows\<close> is a \<open>Set\<close> of identities; it is replaced, never mutated.
  \<^verbatim>\<open>
  function handleRowSelect(rowId) {
    if (!selectable) return;
    const newSelected = new Set(selectedRows);
    if (newSelected.has(rowId)) { newSelected.delete(rowId); } else { newSelected.add(rowId); }
    selectedRows = newSelected;
  }

  function handleSelectAll() {
    if (!selectable) return;
    if (selectedRows.size === paginatedData.length && paginatedData.length > 0) {
      selectedRows = new Set();
    } else {
      selectedRows = new Set(paginatedData.map(item => getRowId(item)));
    }
  }\<close>
\<close>

text \<open>
  A \<open>Set\<close> compares its members by \<open>SameValueZero\<close>: primitive values by value, arrays
  by reference. The set of values used here compares by value throughout, so it is the
  \<open>Set\<close> of the source as long as the identities are primitive values, which is what
  the identity fields of a row hold (a string or a number) and what the serialization
  fallback gives. An identity that is an array is outside what the set models.
\<close>

fun primitive :: "jsval \<Rightarrow> bool" where
  "primitive (JArr xs) = False"
| "primitive v = True"

definition primitiveSet :: "jsval fset \<Rightarrow> bool" where
  "primitiveSet selected = (\<forall>i \<in> fset selected. primitive i)"

definition handleRowSelect :: "bool \<Rightarrow> jsval \<Rightarrow> jsval fset \<Rightarrow> jsval fset" where
  "handleRowSelect sel rowId selected =
     (if \<not> sel then selected
      else if rowId |\<in>| selected then selected |-| {|rowId|}
      else finsert rowId selected)"

definition handleSelectAll :: "bool \<Rightarrow> row list \<Rightarrow> jsval fset \<Rightarrow> jsval fset" where
  "handleSelectAll sel paginated selected =
     (if \<not> sel then selected
      else if fcard selected = length paginated \<and> length paginated > 0 then {||}
      else fset_of_list (map getRowId paginated))"

text \<open>The API variant differs in the expression mapped over the page.\<close>

definition handleSelectAll_api :: "bool \<Rightarrow> row list \<Rightarrow> jsval fset \<Rightarrow> jsval fset" where
  "handleSelectAll_api sel paginated selected =
     (if \<not> sel then selected
      else if fcard selected = length paginated \<and> length paginated > 0 then {||}
      else fset_of_list (map selectAllId_api paginated))"

text \<open>The data-provider variant tests \<open>selectedRows.size === paginatedData.length\<close> alone.\<close>

definition handleSelectAll_provider :: "bool \<Rightarrow> row list \<Rightarrow> jsval fset \<Rightarrow> jsval fset" where
  "handleSelectAll_provider sel paginated selected =
     (if \<not> sel then selected
      else if fcard selected = length paginated then {||}
      else fset_of_list (map rowId_provider paginated))"

text \<open>What the row's own checkbox shows: \<open>checked={selectedRows.has(getRowId(row))}\<close>.\<close>

definition rowChecked :: "jsval fset \<Rightarrow> row \<Rightarrow> bool" where
  "rowChecked selected r = (getRowId r |\<in>| selected)"

definition rowChecked_api :: "jsval fset \<Rightarrow> row \<Rightarrow> bool" where
  "rowChecked_api selected r = (getRowId_api r |\<in>| selected)"

definition rowChecked_provider :: "jsval fset \<Rightarrow> row \<Rightarrow> bool" where
  "rowChecked_provider selected r = (rowId_provider r |\<in>| selected)"

section \<open>Component state\<close>

record props =
  itemsPerPage :: int
  sortable :: bool
  selectable :: bool
  columns :: "string list"

record state =
  currentPage :: int
  searchTerm :: string
  sortCfg :: sortConfig
  selectedRows :: "jsval fset"
  loading :: bool
  error :: "string option"
  allRows :: "row list"

text \<open>The initial values of the script's variables.\<close>

definition initial :: state where
  "initial = \<lparr> currentPage = 1, searchTerm = [], sortCfg = \<lparr>key = None, direction = Asc\<rparr>,
               selectedRows = {||}, loading = False, error = None, allRows = [] \<rparr>"

text \<open>The rows on screen: the reactive chain filter, sort, page.\<close>

definition visibleRows :: "props \<Rightarrow> state \<Rightarrow> row list" where
  "visibleRows pr st =
     paginatedData (sortedData (sortCfg st) (filteredData (allRows st) (searchTerm st) (columns pr)))
       (currentPage st) (itemsPerPage pr)"

definition pageCount :: "props \<Rightarrow> state \<Rightarrow> int" where
  "pageCount pr st =
     totalPages (sortedData (sortCfg st) (filteredData (allRows st) (searchTerm st) (columns pr)))
       (itemsPerPage pr)"

text \<open>
  The pagination buttons assign \<open>currentPage\<close> and nothing else:
  \<^verbatim>\<open>
  on:click={() => currentPage = Math.max(1, currentPage - 1)}
  on:click={() => currentPage = pageNum}
  on:click={() => currentPage = Math.min(totalPages, currentPage + 1)}\<close>
\<close>

definition previousPage :: "state \<Rightarrow> state" where
  "previousPage st = st\<lparr>currentPage := max 1 (currentPage st - 1)\<rparr>"

definition goToPage :: "int \<Rightarrow> state \<Rightarrow> state" where
  "goToPage pageNum st = st\<lparr>currentPage := pageNum\<rparr>"

definition nextPage :: "props \<Rightarrow> state \<Rightarrow> state" where
  "nextPage pr st = st\<lparr>currentPage := min (pageCount pr st) (currentPage st + 1)\<rparr>"

text \<open>The header checkbox and a row's checkbox, on the state.\<close>

definition clickSelectAll :: "props \<Rightarrow> state \<Rightarrow> state" where
  "clickSelectAll pr st =
     st\<lparr>selectedRows := handleSelectAll (selectable pr) (visibleRows pr st) (selectedRows st)\<rparr>"

definition clickRowSelect :: "props \<Rightarrow> row \<Rightarrow> state \<Rightarrow> state" where
  "clickRowSelect pr r st =
     st\<lparr>selectedRows := handleRowSelect (selectable pr) (getRowId r) (selectedRows st)\<rparr>"

section \<open>Loading the rows\<close>

text \<open>The fixture of the fixture variant.\<close>

definition dummyData :: "row list" where
  "dummyData = [
    [(''_id'', JStr ''041d45cd-f8c7-48cf-8096-d80e1007a654''),
     (''customerid'', JStr ''041d45cd-f8c7-48cf-8096-d80e1007a654''),
     (''firstname'', JStr ''den''),
     (''lastname'', JStr ''deni''),
     (''email'', JStr ''den@gmail.com''),
     (''phonenumber'', JStr ''999000000''),
     (''nationalid'', JStr ''TRTdjwey''),
     (''isconsent'', JBool True),
     (''created_at'', JStr ''2025-07-29T11:36:10.219Z''),
     (''datecreated'', JStr ''2025-08-04T13:59:36.315Z''),
     (''updated_at'', JStr ''2025-08-04T13:59:36.315Z'')],
    [(''_id'', JStr ''10320437-b0a8-47a7-9735-903b983ea580''),
     (''customerid'', JStr ''10320437-b0a8-47a7-9735-903b983ea580''),
     (''firstname'', JStr ''try''),
     (''lastname'', JStr ''ken''),
     (''email'', JStr ''try@gmail.com''),
     (''phonenumber'', JStr ''266000000000''),
     (''nationalid'', JStr ''hg72nk94''),
     (''isconsent'', JBool True),
     (''created_at'', JStr ''2025-07-28T07:55:33.517Z''),
     (''datecreated'', JStr ''2025-08-04T10:07:00.995Z''),
     (''updated_at'', JStr ''2025-08-04T10:07:00.995Z'')],
    [(''_id'', JStr ''218ff501-6eb4-4faf-a086-6f4ee030ea66''),
     (''customerid'', JStr ''218ff501-6eb4-4faf-a086-6f4ee030ea66''),
     (''firstname'', JStr ''try''),
     (''lastname'', JStr ''Noel''),
     (''email'', JStr ''try@gmail.com''),
     (''phonenumber'', JStr ''266000000000''),
     (''nationalid'', JStr ''WHTh632j''),
     (''isconsent'', JBool True),
     (''created_at'', JStr ''2025-07-28T07:46:16.994Z''),
     (''datecreated'', JStr ''2025-08-04T10:06:25.946Z''),
     (''updated_at'', JStr ''2025-08-04T10:06:25.946Z'')],
    [(''_id'', JStr ''23cccea2-6456-46a2-92ed-cb94e73beedb''),
     (''customerid'', JStr ''23cccea2-6456-46a2-92ed-cb94e73beedb''),
     (''firstname'', JStr ''ken''),
     (''lastname'', JStr ''dffd''),
     (''email'', JStr ''ken@gmail.com''),
     (''phonenumber'', JStr ''4989457''),
     (''nationalid'', JStr ''fdf''),
     (''isconsent'', JBool True),
     (''created_at'', JStr ''2025-08-04T00:36:21.815Z''),
     (''datecreated'', JStr ''2025-08-04T08:24:50.533Z''),
     (''updated_at'', JStr ''2025-08-04T08:24:50.533Z'')],
    [(''_id'', JStr ''285c550a-794e-409d-92f7-d29027dbfad2''),
     (''customerid'', JStr ''285c550a-794e-409d-92f7-d29027dbfad2''),
     (''firstname'', JStr ''ken''),
     (''lastname'', JStr ''Feri''),
     (''email'', JStr ''ken@gmail.com''),
     (''phonenumber'', JStr ''26600000000000''),
     (''nationalid'', JStr ''Hkslf8348''),
     (''isconsent'', JBool True),
     (''created_at'', JStr ''2025-08-04T08:06:44.282Z''),
     (''datecreated'', JStr ''2025-08-04T08:25:45.908Z''),
     (''updated_at'', JStr ''2025-08-04T08:25:45.908Z'')],
    [(''_id'', JStr ''3df6db58-a5d0-4ce9-b104-add38fa54e4e''),
     (''customerid'', JStr ''3df6db58-a5d0-4ce9-b104-add38fa54e4e''),
     (''firstname'', JStr ''try''),
     (''lastname'', JStr ''junior''),
     (''email'', JStr ''try@gmail.com''),
     (''phonenumber'', JStr ''100000000000''),
     (''nationalid'', JStr ''rrrrrrrrr''),
     (''isconsent'', JBool True),
     (''created_at'', JStr ''2025-07-29T04:19:04.544Z''),
     (''datecreated'', JStr ''2025-08-04T10:06:43.816Z''),
     (''updated_at'', JStr ''2025-08-04T10:06:43.816Z'')],
    [(''_id'', JStr ''4293c7ce-b8f7-4498-908e-f2e920e9bb23''),
     (''customerid'', JStr ''4293c7ce-b8f7-4498-908e-f2e920e9bb23''),
     (''firstname'', JStr ''Peter''),
     (''lastname'', JStr ''parker''),
     (''email'', JStr ''pp@gmail.com''),
     (''phonenumber'', JStr ''266000000000000''),
     (''nationalid'', JStr ''WH623hjs''),
     (''isconsent'', JBool False),
     (''created_at'', JStr ''2025-07-28T07:56:23.103Z''),
     (''datecreated'', JStr ''2025-07-28T07:56:23.103Z''),
     (''updated_at'', JStr ''2025-07-28T07:56:23.103Z'')],
    [(''_id'', JStr ''a0bc2862-6eeb-4574-81ee-d51ad24b6a59''),
     (''customerid'', JStr ''a0bc2862-6eeb-4574-81ee-d51ad24b6a59''),
     (''firstname'', JStr ''blue''),
     (''lastname'', JStr ''color''),
     (''email'', JStr ''bluecolor@gmail.com''),
     (''phonenumber'', JStr ''883000000''),
     (''nationalid'', JStr ''tyhigff''),
     (''isconsent'', JBool False),
     (''created_at'', JStr ''2025-07-29T04:27:02.788Z''),
     (''datecreated'', JStr ''2025-07-29T04:27:02.788Z''),
     (''updated_at'', JStr ''2025-07-29T04:27:02.788Z'')],
    [(''_id'', JStr ''a951e7c0-f330-4368-9e87-9f51d8d68603''),
     (''customerid'', JStr ''a951e7c0-f330-4368-9e87-9f51d8d68603''),
     (''firstname'', JStr ''grace''),
     (''lastname'', JStr ''banda''),
     (''email'', JStr ''gracebanda@gmail.com''),
     (''phonenumber'', JStr ''266000000000''),
     (''nationalid'', JStr ''TYhk38hh''),
     (''isconsent'', JBool False),
     (''created_at'', JStr ''2025-07-28T07:57:16.364Z''),
     (''datecreated'', JStr ''2025-07-28T07:57:16.364Z''),
     (''updated_at'', JStr ''2025-07-28T07:57:16.364Z'')],
    [(''_id'', JStr ''c0b5191d-954a-4b56-b55d-ada202622415''),
     (''customerid'', JStr ''c0b5191d-954a-4b56-b55d-ada202622415''),
     (''firstname'', JStr ''Henry''),
     (''lastname'', JStr ''Sauzande''),
     (''email'', JStr ''HS@gmail.com''),
     (''phonenumber'', JStr ''266000000000''),
     (''nationalid'', JStr ''GRR67gg78''),
     (''isconsent'', JBool True),
     (''created_at'', JStr ''2025-07-30T08:13:21.100Z''),
     (''datecreated'', JStr ''2025-07-30T08:13:55.709Z''),
     (''updated_at'', JStr ''2025-07-30T08:13:55.709Z'')]]"

text \<open>
  What the host does when \<open>fetchData\<close> runs: whether a \<open>datasource\<close> or \<open>table\<close> is
  bound, how the API call ends, and what the \<open>onRefresh\<close> callback does. A response is
  read as \<open>response.rows\<close>, else \<open>response.data\<close>, else the response itself when it is
  an array; anything else carries no rows.
\<close>

datatype api_response = RespRows "row list" | RespData "row list" | RespArray "row list" | RespOther

datatype api_outcome = Resolves api_response | Rejects string

datatype callback = NotSupplied | Returns | Throws string

record host_run =
  bound :: bool
  api :: api_outcome
  onRefresh :: callback

definition errorMessage :: "string \<Rightarrow> string" where
  "errorMessage msg = (if msg = [] then ''Failed to fetch data'' else msg)"

text \<open>
  API variant (\<^verbatim>\<open>part_000\<close>). The table schema it also fetches is not part of the
  state modelled here.
  \<^verbatim>\<open>
  async function fetchData() {
    if (!datasource && !table) return;
    loading = true;
    error = null;
    try {
      let response;
      if (table) { response = await API.searchTable(query); ... }
      else if (datasource) { response = await API.fetchDatasource(datasource); }
      if (response?.rows) { allRows = response.rows; }
      else if (response?.data) { allRows = response.data; }
      else if (Array.isArray(response)) { allRows = response; }
      else { allRows = []; }
      // Reset pagination when data changes
      currentPage = 1;
      selectedRows = new Set();
      if (onRefresh) { onRefresh({ rows: allRows, totalRows: allRows.length }); }
    } catch (err) {
      console.error("Error fetching data:", err);
      error = err.message || "Failed to fetch data";
      allRows = [];
    } finally {
      loading = false;
    }
  }\<close>
\<close>

definition fetchData_api :: "host_run \<Rightarrow> state \<Rightarrow> state" where
  "fetchData_api h st =
     (if \<not> bound h then st
      else case api h of
        Rejects msg \<Rightarrow> st\<lparr>loading := False, error := Some (errorMessage msg), allRows := []\<rparr>
      | Resolves response \<Rightarrow>
          (let rows = (case response of RespRows rs \<Rightarrow> rs | RespData rs \<Rightarrow> rs
                       | RespArray rs \<Rightarrow> rs | RespOther \<Rightarrow> []);
               st' = st\<lparr>error := None, allRows := rows, currentPage := 1, selectedRows := {||}\<rparr>
           in case onRefresh h of
                Throws msg \<Rightarrow> st'\<lparr>loading := False, error := Some (errorMessage msg), allRows := []\<rparr>
              | _ \<Rightarrow> st'\<lparr>loading := False\<rparr>))"

text \<open>
  Fixture variant (\<^verbatim>\<open>Component.svelte\<close>): an inner \<open>try\<close> turns every failure of the
  API, and a response without rows, into the fixture before the reset is reached.
  \<^verbatim>\<open>
      if (datasource || table) {
        try {
          ...
          if (response?.rows) { allRows = response.rows; }
          else if (response?.data) { allRows = response.data; }
          else if (Array.isArray(response)) { allRows = response; }
          else { throw new Error("No data returned from API"); }
        } catch (apiError) {
          allRows = [...dummyData];
          tableSchema = customerSchema;
        }
      } else {
        allRows = [...dummyData];
        tableSchema = customerSchema;
      }
      // Reset pagination when data changes
      currentPage = 1;
      selectedRows = new Set();
      if (onRefresh) { onRefresh({ rows: allRows, totalRows: allRows.length }); }
    } catch (err) {
      error = err.message || "Failed to fetch data";
      allRows = [...dummyData];
      tableSchema = customerSchema;
    } finally {
      loading = false;
    }\<close>
\<close>

definition fetchData :: "host_run \<Rightarrow> state \<Rightarrow> state" where
  "fetchData h st =
     (let rows = (if bound h
                  then (case api h of
                          Resolves (RespRows rs) \<Rightarrow> rs
                        | Resolves (RespData rs) \<Rightarrow> rs
                        | Resolves (RespArray rs) \<Rightarrow> rs
                        | Resolves RespOther \<Rightarrow> dummyData
                        | Rejects msg \<Rightarrow> dummyData)
                  else dummyData);
          st' = st\<lparr>error := None, allRows := rows, currentPage := 1, selectedRows := {||}\<rparr>
      in case onRefresh h of
           Throws msg \<Rightarrow> st'\<lparr>loading := False, error := Some (errorMessage msg), allRows := dummyData\<rparr>
         | _ \<Rightarrow> st'\<lparr>loading := False\<rparr>)"

text \<open>
  Data-provider variant (\<^verbatim>\<open>part_001\<close>): the rows come from the \<open>dataProvider\<close> prop,
  and the only reaction to new rows is
  \<^verbatim>\<open>
  // Reset page when data changes
  $: if (rows) { currentPage = 1; }\<close>
\<close>

definition rowsChanged_provider :: "row list \<Rightarrow> state \<Rightarrow> state" where
  "rowsChanged_provider rows st = st\<lparr>allRows := rows, currentPage := 1\<rparr>"

section \<open>Value formatting\<close>

text \<open>
  The two locale-dependent conversions are the host's:
  \<open>dateString v\<close> is \<open>new Date(v).toLocaleDateString()\<close> and \<open>numberString n\<close> is
  \<open>n.toLocaleString()\<close>.
\<close>

record host_locale =
  dateString :: "jsval \<Rightarrow> string"
  numberString :: "int \<Rightarrow> string"

text \<open>
  \<^verbatim>\<open>
  function formatValue(value, type) {
    if (value === null || value === undefined) return "";
    switch (type) {
      case "datetime": return new Date(value).toLocaleDateString();
      case "number":   return typeof value === "number" ? value.toLocaleString() : value;
      case "boolean":  return value ? "Yes" : "No";
      case "options":  return Array.isArray(value) ? value.join(", ") : value;
      default:         return String(value);
    }
  }\<close>
\<close>

definition formatValue :: "host_locale \<Rightarrow> jsval \<Rightarrow> string \<Rightarrow> jsval" where
  "formatValue loc v t =
     (if v = JNull \<or> v = JUndefined then JStr []
      else if t = ''datetime'' then JStr (dateString loc v)
      else if t = ''number'' then (case v of JNum n \<Rightarrow> JStr (numberString loc n) | _ \<Rightarrow> v)
      else if t = ''boolean'' then JStr (if truthy v then ''Yes'' else ''No'')
      else if t = ''options'' then (case v of JArr xs \<Rightarrow> JStr (array_join '', '' xs) | _ \<Rightarrow> v)
      else JStr (js_String v))"

text \<open>The data-provider variant has no \<open>"options"\<close> case.\<close>

definition formatValue_provider :: "host_locale \<Rightarrow> jsval \<Rightarrow> string \<Rightarrow> jsval" where
  "formatValue_provider loc v t =
     (if v = JNull \<or> v = JUndefined then JStr []
      else if t = ''datetime'' then JStr (dateString loc v)
      else if t = ''number'' then (case v of JNum n \<Rightarrow> JStr (numberString loc n) | _ \<Rightarrow> v)
      else if t = ''boolean'' then JStr (if truthy v then ''Yes'' else ''No'')
      else JStr (js_String v))"

subsection \<open>A host locale\<close>

text \<open>
  One host, for evaluating \<open>formatValue\<close>: the \<open>en-US\<close> locale in UTC. Its dates are
  read from ISO 8601 strings (\<open>YYYY-MM-DD\<close>, with or without a time after \<open>T\<close>), as the
  datetime columns of the fixture hold them, and shown as \<open>M/D/YYYY\<close>; any other value
  is answered with \<open>Invalid Date\<close>, which is what a string that is no date gives.
  Numbers are grouped in thousands.
\<close>

definition isoDate :: "string \<Rightarrow> (int \<times> int \<times> int) option" where
  "isoDate s =
     (if 10 \<le> length s \<and> list_all is_digit (take 4 s) \<and> s ! 4 = CHR ''-''
         \<and> list_all is_digit (take 2 (drop 5 s)) \<and> s ! 7 = CHR ''-''
         \<and> list_all is_digit (take 2 (drop 8 s)) \<and> (length s = 10 \<or> s ! 10 = CHR ''T'')
      then (let y = digits_value (take 4 s); m = digits_value (take 2 (drop 5 s));
                d = digits_value (take 2 (drop 8 s))
            in if 1 \<le> m \<and> m \<le> 12 \<and> 1 \<le> d \<and> d \<le> 31 then Some (y, m, d) else None)
      else None)"

definition usDateString :: "jsval \<Rightarrow> string" where
  "usDateString v =
     (case v of
        JStr s \<Rightarrow> (case isoDate s of
                     Some (y, m, d) \<Rightarrow> int_digits m @ ''/'' @ int_digits d @ ''/'' @ int_digits y
                   | None \<Rightarrow> ''Invalid Date'')
      | _ \<Rightarrow> ''Invalid Date'')"

fun group_reversed :: "string \<Rightarrow> string" where
  "group_reversed (a # b # c # d # s) = a # b # c # CHR '','' # group_reversed (d # s)"
| "group_reversed s = s"

definition usNumberString :: "int \<Rightarrow> string" where
  "usNumberString n =
     (if n < 0 then CHR ''-'' # rev (group_reversed (rev (nat_digits (nat (- n)))))
      else rev (group_reversed (rev (nat_digits (nat n)))))"

definition usLocale :: host_locale where
  "usLocale = \<lparr> dateString = usDateString, numberString = usNumberString \<rparr>"

section \<open>The specification's select-all\<close>

text \<open>
  The specification words the header checkbox as \<open>toggleAllVisible\<close>: if every row
  identity on the current page is already selected and the page is not empty, clear the
  whole selection set; otherwise add the identities of the current page to it. This is
  that wording, to be compared with \<open>handleSelectAll\<close>.
\<close>

definition spec_toggleAllVisible :: "row list \<Rightarrow> jsval fset \<Rightarrow> jsval fset" where
  "spec_toggleAllVisible page selected =
     (if fset_of_list (map getRowId page) |\<subseteq>| selected \<and> page \<noteq> [] then {||}
      else selected |\<union>| fset_of_list (map getRowId page))"

section \<open>Properties of the page stage\<close>

lemma map_shift_upto: "map (\<lambda>i. a + i) [0 .. n] = [a .. a + n]"
  by (rule nth_equalityI) simp_all

lemma pageWindow_small: "pageWindow tp cp = [1 .. tp]" if "tp \<le> 5"
proof -
  have "pageWindow tp cp = map (\<lambda>i. 1 + i) [0 .. tp - 1]"
    using that by (simp add: pageWindow_def pageButton_def min_def add.commute)
  then show ?thesis by (simp add: map_shift_upto)
qed

lemma pageWindow_large:
  assumes "5 < tp"
  shows "pageWindow tp cp =
     (if cp \<le> 3 then [1 .. 5] else if cp \<ge> tp - 2 then [tp - 4 .. tp] else [cp - 2 .. cp + 2])"
proof -
  have m: "min 5 tp - 1 = 4" using assms by simp
  have "pageWindow tp cp = map (\<lambda>i. (if cp \<le> 3 then 1 else if cp \<ge> tp - 2 then tp - 4 else cp - 2) + i) [0 .. 4]"
    unfolding pageWindow_def m using assms by (intro map_cong refl) (simp add: pageButton_def)
  also have "\<dots> = [(if cp \<le> 3 then 1 else if cp \<ge> tp - 2 then tp - 4 else cp - 2) .. (if cp \<le> 3 then 1 else if cp \<ge> tp - 2 then tp - 4 else cp - 2) + 4]"
    by (rule map_shift_upto)
  finally show ?thesis by (simp add: add.commute split: if_splits)
qed

lemma js_slice_nonneg:
  assumes "0 \<le> s" "s \<le> e"
  shows "js_slice xs s e = take (nat (e - s)) (drop (nat s) xs)"
proof (cases "s < int (length xs)")
  case True
  then show ?thesis using assms by (auto simp: js_slice_def Let_def min_def)
next
  case False
  then show ?thesis using assms by (simp add: js_slice_def Let_def min_def)
qed

lemma paginatedData_take_drop:
  assumes "0 < p" "1 \<le> cp"
  shows "paginatedData rs cp p = take (nat p) (drop (nat (cp - 1) * nat p) rs)"
proof -
  have "0 \<le> startIndex cp p" using assms by (simp add: startIndex_def)
  then have "paginatedData rs cp p = take (nat p) (drop (nat (startIndex cp p)) rs)"
    by (simp add: paginatedData_def js_slice_nonneg assms(1) less_imp_le)
  then show ?thesis using assms by (simp add: startIndex_def nat_mult_distrib)
qed

lemma totalPages_bounds:
  assumes "0 < p"
  shows "int (length rs) \<le> totalPages rs p * p"
    and "(totalPages rs p - 1) * p < int (length rs)"
    and "0 \<le> totalPages rs p"
proof -
  let ?x = "real (length rs) / real_of_int p"
  let ?c = "real_of_int \<lceil>?x\<rceil>"
  have p: "0 < real_of_int p" using assms by simp
  have x: "?x * real_of_int p = real_of_int (int (length rs))" using p by simp
  have "?x * real_of_int p \<le> ?c * real_of_int p"
    by (rule mult_right_mono) (use p in simp_all)
  then have "real_of_int (int (length rs)) \<le> real_of_int (\<lceil>?x\<rceil> * p)"
    unfolding x by simp
  then show "int (length rs) \<le> totalPages rs p * p"
    unfolding totalPages_def by (simp only: of_int_le_iff)
  have "?c - 1 < ?x" using ceiling_correct [of ?x] by simp
  then have "(?c - 1) * real_of_int p < ?x * real_of_int p"
    by (rule mult_strict_right_mono) (rule p)
  then have "real_of_int ((\<lceil>?x\<rceil> - 1) * p) < real_of_int (int (length rs))"
    unfolding x by simp
  then show "(totalPages rs p - 1) * p < int (length rs)"
    unfolding totalPages_def by (simp only: of_int_less_iff)
  have "0 \<le> ?x" using p by simp
  then have "- 1 < ?x" by linarith
  then show "0 \<le> totalPages rs p" by (simp only: totalPages_def zero_le_ceiling)
qed

lemma upto_as_upt: "[1 .. int n] = map (\<lambda>i. int i + 1) [0 ..< n]"
  by (rule nth_equalityI) simp_all

lemma concat_pages: "concat (map (\<lambda>i. take P (drop (i * P) xs)) [0 ..< N]) = take (N * P) xs"
proof (induction N)
  case 0
  then show ?case by simp
next
  case (Suc N)
  have "take (N * P) xs @ take P (drop (N * P) xs) = take (N * P + P) xs"
    by (simp add: take_add)
  with Suc show ?case by (simp add: add.commute)
qed

lemma pages_reconstruct:
  assumes "0 < p"
  shows "concat (map (\<lambda>k. paginatedData rs k p) [1 .. totalPages rs p]) = rs"
proof -
  define N where "N = nat (totalPages rs p)"
  have tp: "totalPages rs p = int N"
    using totalPages_bounds(3) [OF assms, of rs] by (simp add: N_def)
  have "int (length rs) \<le> int N * p"
    using totalPages_bounds(1) [OF assms, of rs] tp by simp
  then have "int (length rs) \<le> int (N * nat p)" using assms by simp
  then have len: "length rs \<le> N * nat p" by (simp only: of_nat_le_iff)
  have "map (\<lambda>k. paginatedData rs k p) [1 .. int N] =
        map (\<lambda>i. take (nat p) (drop (i * nat p) rs)) [0 ..< N]"
    unfolding upto_as_upt map_map
    by (rule map_cong) (simp_all add: paginatedData_take_drop assms)
  then show ?thesis using len by (simp add: tp concat_pages)
qed

lemma full_page_length:
  assumes "0 < p" "1 \<le> k" "k < totalPages rs p"
  shows "length (paginatedData rs k p) = nat p"
proof -
  have "k * p \<le> (totalPages rs p - 1) * p"
    using assms by (intro mult_right_mono) simp_all
  also have "\<dots> < int (length rs)" by (rule totalPages_bounds(2) [OF assms(1)])
  finally have "int (nat (k - 1) * nat p) + p \<le> int (length rs)"
    using assms by (simp add: algebra_simps)
  then have "nat (k - 1) * nat p + nat p \<le> length rs" using assms by linarith
  then show ?thesis by (simp add: paginatedData_take_drop assms)
qed

lemma last_page_length:
  assumes "0 < p" "rs \<noteq> []"
  shows "1 \<le> length (paginatedData rs (totalPages rs p) p)"
    and "length (paginatedData rs (totalPages rs p) p) \<le> nat p"
proof -
  have "0 < int (length rs)" using assms by simp
  also have "\<dots> \<le> totalPages rs p * p" by (rule totalPages_bounds(1) [OF assms(1)])
  finally have one: "1 \<le> totalPages rs p" using assms(1) by (simp add: zero_less_mult_iff)
  have "(totalPages rs p - 1) * p < int (length rs)" by (rule totalPages_bounds(2) [OF assms(1)])
  then have "int (nat (totalPages rs p - 1) * nat p) < int (length rs)"
    using assms one by simp
  then have "nat (totalPages rs p - 1) * nat p < length rs" by (simp only: of_nat_less_iff)
  then have "1 \<le> length rs - nat (totalPages rs p - 1) * nat p" by linarith
  moreover have "1 \<le> nat p" using assms by linarith
  ultimately show "1 \<le> length (paginatedData rs (totalPages rs p) p)"
    unfolding paginatedData_take_drop [OF assms(1) one] by (simp del: One_nat_def)
  show "length (paginatedData rs (totalPages rs p) p) \<le> nat p"
    by (simp add: paginatedData_take_drop one assms)
qed

lemma page_past_end:
  assumes "0 < p" "int (length rs) \<le> startIndex cp p"
  shows "paginatedData rs cp p = []"
  using assms by (simp add: paginatedData_def js_slice_def Let_def)

text \<open>
  C6. For every row list and every positive page size, the pages \<open>1\<close> to
  \<open>totalPages\<close> concatenated give the row list back; every page before the last has
  exactly \<open>itemsPerPage\<close> rows; the last page (there is one when the list is not empty)
  has between one and \<open>itemsPerPage\<close> rows; and a page whose start index is at or past
  the end of the list is empty.
\<close>

theorem pagination_partitions_rows:
  assumes "0 < p"
  shows "concat (map (\<lambda>k. paginatedData rs k p) [1 .. totalPages rs p]) = rs
       \<and> (\<forall>k. 1 \<le> k \<and> k < totalPages rs p \<longrightarrow> length (paginatedData rs k p) = nat p)
       \<and> (rs \<noteq> [] \<longrightarrow> 1 \<le> length (paginatedData rs (totalPages rs p) p)
                    \<and> length (paginatedData rs (totalPages rs p) p) \<le> nat p)
       \<and> (\<forall>cp. int (length rs) \<le> startIndex cp p \<longrightarrow> paginatedData rs cp p = [])"
  using pages_reconstruct [OF assms] full_page_length [OF assms]
    last_page_length [OF assms] page_past_end [OF assms]
  by blast

theorem pagination_partitions_rows_witness:
  "concat (map (\<lambda>k. paginatedData
       [[(''id'', JNum 1)], [(''id'', JNum 2)], [(''id'', JNum 3)], [(''id'', JNum 4)],
        [(''id'', JNum 5)], [(''id'', JNum 6)], [(''id'', JNum 7)]] k 3)
     [1 .. totalPages [[(''id'', JNum 1)], [(''id'', JNum 2)], [(''id'', JNum 3)],
        [(''id'', JNum 4)], [(''id'', JNum 5)], [(''id'', JNum 6)], [(''id'', JNum 7)]] 3])
     = [[(''id'', JNum 1)], [(''id'', JNum 2)], [(''id'', JNum 3)], [(''id'', JNum 4)],
        [(''id'', JNum 5)], [(''id'', JNum 6)], [(''id'', JNum 7)]]
   \<and> totalPages [[(''id'', JNum 1)], [(''id'', JNum 2)], [(''id'', JNum 3)], [(''id'', JNum 4)],
        [(''id'', JNum 5)], [(''id'', JNum 6)], [(''id'', JNum 7)]] 3 = 3
   \<and> length (paginatedData [[(''id'', JNum 1)], [(''id'', JNum 2)], [(''id'', JNum 3)],
        [(''id'', JNum 4)], [(''id'', JNum 5)], [(''id'', JNum 6)], [(''id'', JNum 7)]] 2 3) = 3
   \<and> paginatedData [[(''id'', JNum 1)], [(''id'', JNum 2)], [(''id'', JNum 3)],
        [(''id'', JNum 4)], [(''id'', JNum 5)], [(''id'', JNum 6)], [(''id'', JNum 7)]] 3 3
       = [[(''id'', JNum 7)]]
   \<and> paginatedData [[(''id'', JNum 1)], [(''id'', JNum 2)], [(''id'', JNum 3)],
        [(''id'', JNum 4)], [(''id'', JNum 5)], [(''id'', JNum 6)], [(''id'', JNum 7)]] 4 3 = []"
proof -
  let ?R = "[[(''id'', JNum 1)], [(''id'', JNum 2)], [(''id'', JNum 3)], [(''id'', JNum 4)],
        [(''id'', JNum 5)], [(''id'', JNum 6)], [(''id'', JNum 7)]] :: row list"
  have p: "(0::int) < 3" by simp
  have tp: "totalPages ?R 3 = 3" by (simp add: totalPages_def)
  have si: "int (length ?R) \<le> startIndex 4 3" by (simp add: startIndex_def)
  have l3: "paginatedData ?R 3 3 = [[(''id'', JNum 7)]]"
    by (simp add: paginatedData_def startIndex_def js_slice_def)
  note t = pagination_partitions_rows [OF p, of ?R]
  from t have "concat (map (\<lambda>k. paginatedData ?R k 3) [1 .. totalPages ?R 3]) = ?R"
    by (rule conjunct1)
  moreover from t tp have "length (paginatedData ?R 2 3) = nat 3" by simp
  moreover from t si have "paginatedData ?R 4 3 = []" by blast
  ultimately show ?thesis using tp l3 by simp
qed

text \<open>
  C7. The page buttons are the pages \<open>1\<close> to \<open>totalPages\<close> when there are at most five
  pages; otherwise \<open>1\<close> to \<open>5\<close> when the current page is at most \<open>3\<close>, the last five
  pages when the current page is within two of the last, and the five pages around the
  current one in between. With twelve pages the windows at pages 1, 7 and 12 are
  \<open>1..5\<close>, \<open>5..9\<close> and \<open>8..12\<close>.
\<close>

theorem pageWindow_cases:
  "(1 \<le> tp \<and> 1 \<le> cp \<and> cp \<le> tp \<longrightarrow>
      pageWindow tp cp =
        (if tp \<le> 5 then [1 .. tp]
         else if cp \<le> 3 then [1 .. 5]
         else if cp \<ge> tp - 2 then [tp - 4 .. tp]
         else [cp - 2 .. cp + 2]))
   \<and> pageWindow 12 1 = [1, 2, 3, 4, 5]
   \<and> pageWindow 12 7 = [5, 6, 7, 8, 9]
   \<and> pageWindow 12 12 = [8, 9, 10, 11, 12]"
proof -
  have "pageWindow tp cp =
        (if tp \<le> 5 then [1 .. tp]
         else if cp \<le> 3 then [1 .. 5]
         else if cp \<ge> tp - 2 then [tp - 4 .. tp]
         else [cp - 2 .. cp + 2])"
    using pageWindow_small [of tp cp] pageWindow_large [of tp cp] by (cases "tp \<le> 5") simp_all
  moreover have "pageWindow 12 1 = [1, 2, 3, 4, 5]"
    and "pageWindow 12 7 = [5, 6, 7, 8, 9]"
    and "pageWindow 12 12 = [8, 9, 10, 11, 12]"
    by (simp_all add: pageWindow_large upto_rec1)
  ultimately show ?thesis by simp
qed

theorem pageWindow_cases_witness:
  "pageWindow 9 5 = [3, 4, 5, 6, 7] \<and> pageWindow 4 2 = [1, 2, 3, 4]"
proof -
  have a: "(1::int) \<le> 9 \<and> (1::int) \<le> 5 \<and> (5::int) \<le> 9" by simp
  have b: "(1::int) \<le> 4 \<and> (1::int) \<le> 2 \<and> (2::int) \<le> 4" by simp
  from pageWindow_cases [of 9 5] a have "pageWindow 9 5 = [5 - 2 .. 5 + 2]" by simp
  moreover from pageWindow_cases [of 4 2] b have "pageWindow 4 2 = [1 .. 4]" by simp
  ultimately show ?thesis by (simp add: upto_rec1)
qed

section \<open>Properties of \<open>handleSort\<close>\<close>

text \<open>
  C10. With sorting enabled, \<open>handleSort k\<close> sets the key to \<open>k\<close>; the direction becomes
  descending exactly when the previous configuration had the key \<open>k\<close> ascending, and
  ascending in every other case. With sorting disabled the configuration is unchanged.
\<close>

theorem handleSort_toggles:
  "key (handleSort True k cfg) = Some k
   \<and> (direction (handleSort True k cfg) = Desc \<longleftrightarrow> key cfg = Some k \<and> direction cfg = Asc)
   \<and> (direction (handleSort True k cfg) = Asc \<longleftrightarrow> \<not> (key cfg = Some k \<and> direction cfg = Asc))
   \<and> handleSort False k cfg = cfg"
  by (simp add: handleSort_def)

theorem handleSort_toggles_witness:
  "handleSort True ''email'' \<lparr>key = None, direction = Asc\<rparr> = \<lparr>key = Some ''email'', direction = Asc\<rparr>
   \<and> handleSort True ''email'' \<lparr>key = Some ''email'', direction = Asc\<rparr>
        = \<lparr>key = Some ''email'', direction = Desc\<rparr>
   \<and> handleSort True ''email'' \<lparr>key = Some ''email'', direction = Desc\<rparr>
        = \<lparr>key = Some ''email'', direction = Asc\<rparr>
   \<and> handleSort True ''email'' \<lparr>key = Some ''phone'', direction = Asc\<rparr>
        = \<lparr>key = Some ''email'', direction = Asc\<rparr>"
  using handleSort_toggles [of "''email''" "\<lparr>key = None, direction = Asc\<rparr>"]
    handleSort_toggles [of "''email''" "\<lparr>key = Some ''email'', direction = Asc\<rparr>"]
    handleSort_toggles [of "''email''" "\<lparr>key = Some ''email'', direction = Desc\<rparr>"]
    handleSort_toggles [of "''email''" "\<lparr>key = Some ''phone'', direction = Asc\<rparr>"]
  by (simp add: handleSort_def)

section \<open>Properties of the selection tracker\<close>

lemma toggle_twice_generic:
  fixes T :: "jsval fset \<Rightarrow> jsval fset"
  assumes T: "\<And>S. T S = (if fcard S = n then {||} else I)"
    and n: "0 < n" and I: "I \<noteq> {||}"
  shows "T (T S) = S \<longleftrightarrow> S = I \<or> (S = {||} \<and> fcard I = n)"
proof (cases "fcard S = n")
  case True
  then have "S \<noteq> {||}" using n by (auto simp: fcard_fempty)
  moreover have "T (T S) = I" using True n by (simp add: T fcard_fempty)
  ultimately show ?thesis by auto
next
  case False
  then have TS: "T S = I" by (simp add: T)
  show ?thesis
  proof (cases "fcard I = n")
    case True
    then have "T I = {||}" by (simp add: T)
    then have "T (T S) = {||}" by (simp only: TS)
    with True \<open>fcard S \<noteq> n\<close> show ?thesis by auto
  next
    case False
    then have "T I = I" by (simp add: T)
    then have "T (T S) = I" by (simp only: TS)
    with False show ?thesis by auto
  qed
qed

lemma ids_nonempty: "P \<noteq> [] \<Longrightarrow> fset_of_list (map f P) \<noteq> {||}"
  by (cases P) simp_all

lemma fcard_fset_of_list: "fcard (fset_of_list xs) = length xs \<longleftrightarrow> distinct xs"
  by (simp add: fcard.rep_eq fset_of_list.rep_eq) (metis card_distinct distinct_card)

lemma handleSelectAll_twice:
  assumes "P \<noteq> []"
  shows "handleSelectAll True P (handleSelectAll True P S) = S \<longleftrightarrow>
     S = fset_of_list (map getRowId P) \<or> (S = {||} \<and> distinct (map getRowId P))"
proof -
  have "handleSelectAll True P (handleSelectAll True P S) = S \<longleftrightarrow>
     S = fset_of_list (map getRowId P)
     \<or> (S = {||} \<and> fcard (fset_of_list (map getRowId P)) = length P)"
    by (rule toggle_twice_generic [where n = "length P"])
       (use assms in \<open>simp_all add: handleSelectAll_def ids_nonempty del: fset_of_list_map\<close>)
  then show ?thesis using fcard_fset_of_list [of "map getRowId P"] by simp
qed

lemma handleSelectAll_provider_twice:
  assumes "P \<noteq> []"
  shows "handleSelectAll_provider True P (handleSelectAll_provider True P S) = S \<longleftrightarrow>
     S = fset_of_list (map rowId_provider P) \<or> (S = {||} \<and> distinct (map rowId_provider P))"
proof -
  have "handleSelectAll_provider True P (handleSelectAll_provider True P S) = S \<longleftrightarrow>
     S = fset_of_list (map rowId_provider P)
     \<or> (S = {||} \<and> fcard (fset_of_list (map rowId_provider P)) = length P)"
    by (rule toggle_twice_generic [where n = "length P"])
       (use assms in \<open>simp_all add: handleSelectAll_provider_def ids_nonempty del: fset_of_list_map\<close>)
  then show ?thesis using fcard_fset_of_list [of "map rowId_provider P"] by simp
qed

text \<open>
  C1, as the specification states it, fails on the code. With one identity selected on
  another page and a one-row page none of whose rows is selected, the sizes agree, so
  the code clears the set where the specification adds the page; with two identities
  selected elsewhere the code replaces them by the page where the specification keeps
  them.
\<close>

theorem select_all_accumulates_counterexample:
  "handleSelectAll True [[(''_id'', JStr ''a'')]] {|JStr ''x''|} = {||}
   \<and> spec_toggleAllVisible [[(''_id'', JStr ''a'')]] {|JStr ''x''|} = {|JStr ''x'', JStr ''a''|}
   \<and> handleSelectAll True [[(''_id'', JStr ''a'')]] {|JStr ''x'', JStr ''y''|} = {|JStr ''a''|}
   \<and> spec_toggleAllVisible [[(''_id'', JStr ''a'')]] {|JStr ''x'', JStr ''y''|}
       = {|JStr ''x'', JStr ''y'', JStr ''a''|}
   \<and> handleSelectAll True [[(''_id'', JStr ''a'')]] {|JStr ''x''|}
       \<noteq> spec_toggleAllVisible [[(''_id'', JStr ''a'')]] {|JStr ''x''|}
   \<and> handleSelectAll True [[(''_id'', JStr ''a'')]] {|JStr ''x'', JStr ''y''|}
       \<noteq> spec_toggleAllVisible [[(''_id'', JStr ''a'')]] {|JStr ''x'', JStr ''y''|}"
  by code_simp

text \<open>
  C1, amended. With selection enabled, if the selection set has as many members as the
  current page has rows and the page is not empty, the selection set becomes empty;
  otherwise it is replaced by the set of the identities of the current page, so every
  identity selected afterwards belongs to a row of the current page. With selection
  disabled the set is unchanged. The three variants differ only in the identity they
  map over the page.
\<close>

theorem select_all_replaces_selection:
  "(fcard S = length P \<and> P \<noteq> [] \<longrightarrow>
      handleSelectAll True P S = {||} \<and> handleSelectAll_api True P S = {||}
      \<and> handleSelectAll_provider True P S = {||})
   \<and> (\<not> (fcard S = length P \<and> P \<noteq> []) \<longrightarrow>
        handleSelectAll True P S = fset_of_list (map getRowId P)
        \<and> handleSelectAll_api True P S = fset_of_list (map selectAllId_api P)
        \<and> handleSelectAll_provider True P S = fset_of_list (map rowId_provider P))
   \<and> (\<forall>i. i |\<in>| handleSelectAll True P S \<longrightarrow> (\<exists>r \<in> set P. getRowId r = i))
   \<and> handleSelectAll False P S = S \<and> handleSelectAll_api False P S = S
   \<and> handleSelectAll_provider False P S = S"
proof -
  have "\<exists>r \<in> set P. getRowId r = i" if "i |\<in>| handleSelectAll True P S" for i
    using that by (auto simp: handleSelectAll_def fset_of_list_elem split: if_splits)
  moreover have "handleSelectAll_provider True [] S = {||}"
    by (simp add: handleSelectAll_provider_def)
  ultimately show ?thesis
    by (auto simp: handleSelectAll_def handleSelectAll_api_def handleSelectAll_provider_def
        simp del: fset_of_list_map)
qed

theorem select_all_replaces_selection_witness:
  "handleSelectAll True [[(''_id'', JStr ''a'')], [(''id'', JNum 7)]] {|JStr ''x''|}
     = {|JStr ''a'', JNum 7|}
   \<and> handleSelectAll True [[(''_id'', JStr ''a'')], [(''id'', JNum 7)]] {|JStr ''x'', JStr ''y''|}
     = {||}"
proof -
  let ?P = "[[(''_id'', JStr ''a'')], [(''id'', JNum 7)]] :: row list"
  have a: "\<not> (fcard {|JStr ''x''|} = length ?P \<and> ?P \<noteq> [])" by code_simp
  have b: "fcard {|JStr ''x'', JStr ''y''|} = length ?P \<and> ?P \<noteq> []" by code_simp
  have c: "fset_of_list (map getRowId ?P) = {|JStr ''a'', JNum 7|}" by code_simp
  from select_all_replaces_selection [of "{|JStr ''x''|}" ?P] a
  have "handleSelectAll True ?P {|JStr ''x''|} = fset_of_list (map getRowId ?P)" by blast
  moreover from select_all_replaces_selection [of "{|JStr ''x'', JStr ''y''|}" ?P] b
  have "handleSelectAll True ?P {|JStr ''x'', JStr ''y''|} = {||}" by blast
  ultimately show ?thesis by (simp only: c)
qed

lemma handleSelectAll_twice_ends:
  "handleSelectAll True P (handleSelectAll True P S) = {||}
   \<or> handleSelectAll True P (handleSelectAll True P S) = fset_of_list (map getRowId P)"
  by (simp add: handleSelectAll_def del: fset_of_list_map)

lemma handleSelectAll_provider_twice_ends:
  "handleSelectAll_provider True P (handleSelectAll_provider True P S) = {||}
   \<or> handleSelectAll_provider True P (handleSelectAll_provider True P S)
       = fset_of_list (map rowId_provider P)"
  by (simp add: handleSelectAll_provider_def del: fset_of_list_map)

text \<open>
  C2, as the specification states it, fails on the code: on an unchanged page of two
  rows, two applications of select-all to a set holding one identity of another page
  end at the empty set.
\<close>

theorem select_all_twice_counterexample:
  "handleSelectAll True [[(''_id'', JStr ''a'')], [(''_id'', JStr ''b'')]]
     (handleSelectAll True [[(''_id'', JStr ''a'')], [(''_id'', JStr ''b'')]] {|JStr ''x''|}) = {||}
   \<and> {|JStr ''x''|} \<noteq> ({||} :: jsval fset)"
  by code_simp

text \<open>
  C2, amended. Take an unchanged page that is not empty, whose row identities are
  primitive values, and a selection set of primitive values. Two applications of
  select-all end at the empty set or at the set of the page's identities; they give the
  selection set back exactly when it was the set of the page's identities, or was empty
  while the page's identities are pairwise distinct. The pagination buttons change
  \<open>currentPage\<close> only: the selection set after going to another page is the selection
  set before, so what was selected on page 1 is still selected on page 2.
\<close>

theorem select_all_twice_and_navigation:
  "(P \<noteq> [] \<and> primitiveSet S \<and> (\<forall>r \<in> set P. primitive (getRowId r)) \<longrightarrow>
      (handleSelectAll True P (handleSelectAll True P S) = S \<longleftrightarrow>
         S = fset_of_list (map getRowId P) \<or> (S = {||} \<and> distinct (map getRowId P)))
      \<and> (handleSelectAll True P (handleSelectAll True P S) = {||}
          \<or> handleSelectAll True P (handleSelectAll True P S) = fset_of_list (map getRowId P)))
   \<and> (P \<noteq> [] \<and> primitiveSet S \<and> (\<forall>r \<in> set P. primitive (rowId_provider r)) \<longrightarrow>
        (handleSelectAll_provider True P (handleSelectAll_provider True P S) = S \<longleftrightarrow>
           S = fset_of_list (map rowId_provider P)
           \<or> (S = {||} \<and> distinct (map rowId_provider P)))
        \<and> (handleSelectAll_provider True P (handleSelectAll_provider True P S) = {||}
            \<or> handleSelectAll_provider True P (handleSelectAll_provider True P S)
                = fset_of_list (map rowId_provider P)))
   \<and> selectedRows (goToPage n st) = selectedRows st
   \<and> selectedRows (previousPage st) = selectedRows st
   \<and> selectedRows (nextPage pr st) = selectedRows st
   \<and> selectedRows (goToPage 2 (clickSelectAll pr (goToPage 1 st)))
       = selectedRows (clickSelectAll pr (goToPage 1 st))"
proof -
  have "handleSelectAll True P (handleSelectAll True P S) = S \<longleftrightarrow>
          S = fset_of_list (map getRowId P) \<or> (S = {||} \<and> distinct (map getRowId P))"
    if "P \<noteq> []"
    using that by (rule handleSelectAll_twice)
  moreover have "handleSelectAll_provider True P (handleSelectAll_provider True P S) = S \<longleftrightarrow>
          S = fset_of_list (map rowId_provider P)
          \<or> (S = {||} \<and> distinct (map rowId_provider P))"
    if "P \<noteq> []"
    using that by (rule handleSelectAll_provider_twice)
  moreover note handleSelectAll_twice_ends [of P S] handleSelectAll_provider_twice_ends [of P S]
  moreover have "selectedRows (goToPage n st) = selectedRows st"
    and "selectedRows (previousPage st) = selectedRows st"
    and "selectedRows (nextPage pr st) = selectedRows st"
    and "selectedRows (goToPage 2 (clickSelectAll pr (goToPage 1 st)))
         = selectedRows (clickSelectAll pr (goToPage 1 st))"
    by (simp_all add: goToPage_def previousPage_def nextPage_def)
  ultimately show ?thesis by blast
qed

theorem select_all_twice_and_navigation_witness:
  "handleSelectAll True [[(''_id'', JStr ''a'')], [(''_id'', JStr ''b'')]]
     (handleSelectAll True [[(''_id'', JStr ''a'')], [(''_id'', JStr ''b'')]]
        {|JStr ''a'', JStr ''b''|}) = {|JStr ''a'', JStr ''b''|}
   \<and> handleSelectAll_provider True [[(''_id'', JStr ''a'')], [(''_id'', JStr ''b'')]]
     (handleSelectAll_provider True [[(''_id'', JStr ''a'')], [(''_id'', JStr ''b'')]]
        {|JStr ''a'', JStr ''b''|}) = {|JStr ''a'', JStr ''b''|}
   \<and> selectedRows (goToPage 2 (initial\<lparr>selectedRows := {|JStr ''a''|}\<rparr>)) = {|JStr ''a''|}"
proof -
  let ?P = "[[(''_id'', JStr ''a'')], [(''_id'', JStr ''b'')]] :: row list"
  let ?S = "{|JStr ''a'', JStr ''b''|}"
  have ne: "?P \<noteq> []" by simp
  have s: "primitiveSet ?S" by code_simp
  have p: "\<forall>r \<in> set ?P. primitive (getRowId r)" by code_simp
  have q: "\<forall>r \<in> set ?P. primitive (rowId_provider r)" by code_simp
  have i: "?S = fset_of_list (map getRowId ?P)" by code_simp
  have j: "?S = fset_of_list (map rowId_provider ?P)" by code_simp
  note t = select_all_twice_and_navigation
    [of ?P ?S 2 "initial\<lparr>selectedRows := {|JStr ''a''|}\<rparr>"]
  from t ne s p i have "handleSelectAll True ?P (handleSelectAll True ?P ?S) = ?S" by blast
  moreover from t ne s q j
  have "handleSelectAll_provider True ?P (handleSelectAll_provider True ?P ?S) = ?S" by blast
  moreover from t
  have "selectedRows (goToPage 2 (initial\<lparr>selectedRows := {|JStr ''a''|}\<rparr>))
      = selectedRows (initial\<lparr>selectedRows := {|JStr ''a''|}\<rparr>)"
    by blast
  ultimately show ?thesis by simp
qed

section \<open>Properties of the row identity\<close>

lemma getRowId_chain:
  "getRowId r =
     (if truthy (field r ''_id'') then field r ''_id''
      else if truthy (field r ''id'') then field r ''id''
      else if truthy (field r ''customerid'') then field r ''customerid''
      else if truthy (field r ''_rev'') then field r ''_rev''
      else JStr (JSON_stringify r))"
  by (simp add: getRowId_def js_or_def)

lemma truthy_getRowId: "truthy (getRowId r)"
  by (simp add: getRowId_def js_or_def JSON_stringify_def)

lemma truthy_getRowId_api: "truthy (getRowId_api r)"
  by (simp add: getRowId_api_def js_or_def JSON_stringify_def)

text \<open>In the fixture variant the header checkbox and the row's checkbox use the same
  identity: a row of the page is checked after select-all has selected the page.\<close>

lemma select_all_checks_rows:
  assumes "\<not> (fcard S = length P \<and> P \<noteq> [])" "r \<in> set P"
  shows "rowChecked (handleSelectAll True P S) r"
  using assms by (auto simp: rowChecked_def handleSelectAll_def fset_of_list_elem)

text \<open>
  C8. In the API variant \<open>handleSelectAll\<close> does not go through \<open>getRowId\<close>: its chain
  ends at the revision field. For a row with none of the identity fields, select-all
  stores \<open>undefined\<close>, while the row's checkbox looks for the serialization of the row:
  after select-all on a page holding that row, the row is not checked.
\<close>

theorem select_all_api_identity_differs:
  "selectAllId_api [(''name'', JStr ''x'')] = JUndefined
   \<and> getRowId_api [(''name'', JStr ''x'')]
       = JStr [CHR ''{'', CHR 0x22, CHR ''n'', CHR ''a'', CHR ''m'', CHR ''e'', CHR 0x22,
               CHR '':'', CHR 0x22, CHR ''x'', CHR 0x22, CHR ''}'']
   \<and> handleSelectAll_api True [[(''name'', JStr ''x'')]] {||} = {|JUndefined|}
   \<and> \<not> rowChecked_api (handleSelectAll_api True [[(''name'', JStr ''x'')]] {||})
         [(''name'', JStr ''x'')]"
  by code_simp

section \<open>Properties of the filter stage\<close>

lemma starts_with_iff: "starts_with s t \<longleftrightarrow> (\<exists>q. s = t @ q)"
  by (induction s t rule: starts_with.induct) auto

lemma str_includes_iff: "str_includes s t \<longleftrightarrow> (\<exists>p q. s = p @ t @ q)"
proof (induction s)
  case Nil
  then show ?case by simp
next
  case (Cons c s)
  have "(\<exists>p q. c # s = p @ t @ q) \<longleftrightarrow> (\<exists>q. c # s = t @ q) \<or> (\<exists>p q. s = p @ t @ q)"
  proof
    assume "\<exists>p q. c # s = p @ t @ q"
    then obtain p q where pq: "c # s = p @ t @ q" by blast
    show "(\<exists>q. c # s = t @ q) \<or> (\<exists>p q. s = p @ t @ q)"
    proof (cases p)
      case Nil
      with pq show ?thesis by auto
    next
      case (Cons d p')
      with pq have "s = p' @ t @ q" by simp
      then show ?thesis by blast
    qed
  next
    assume "(\<exists>q. c # s = t @ q) \<or> (\<exists>p q. s = p @ t @ q)"
    then show "\<exists>p q. c # s = p @ t @ q"
    proof
      assume "\<exists>q. c # s = t @ q"
      then obtain q where "c # s = [] @ t @ q" by auto
      then show ?thesis by blast
    next
      assume "\<exists>p q. s = p @ t @ q"
      then obtain p q where "c # s = (c # p) @ t @ q" by auto
      then show ?thesis by blast
    qed
  qed
  with Cons show ?case by (simp add: starts_with_iff)
qed

text \<open>What holds of the filter: the empty term keeps every row, the result is the rows
  that match in their order, and a cell holding a truthy value matches when its string,
  in lower case, contains the term in lower case.\<close>

lemma filteredData_empty_term: "filteredData rs [] cols = rs"
  by (simp add: filteredData_def rowMatches_def)

lemma filteredData_filter:
  "filteredData rs t cols = filter (\<lambda>r. t = [] \<or> (\<exists>c \<in> set cols. cellMatches t r c)) rs"
  unfolding filteredData_def by (rule filter_cong) (auto simp: rowMatches_def list_ex_iff)

lemma cellMatches_truthy:
  "truthy (field r c) \<Longrightarrow>
   cellMatches t r c \<longleftrightarrow> (\<exists>p q. toLowerCase (js_String (field r c)) = p @ toLowerCase t @ q)"
  by (simp add: cellMatches_def js_or_def str_includes_iff)

text \<open>A cell holding a falsy value (\<open>null\<close>, \<open>undefined\<close>, and also \<open>0\<close>, \<open>false\<close> and
  the empty string) is compared as the empty string: it matches no term but the empty one.\<close>

lemma cellMatches_falsy:
  "\<not> truthy (field r c) \<Longrightarrow> cellMatches t r c \<longleftrightarrow> t = []"
  by (simp add: cellMatches_def js_or_def toLowerCase_def)

text \<open>
  C4. The filter coerces a cell with \<open>String(item[col] || "")\<close>, and \<open>||\<close> replaces
  every falsy value, not only \<open>null\<close> and \<open>undefined\<close>. A row whose \<open>qty\<close> is the
  number \<open>0\<close> is not found by the term \<open>0\<close>, although \<open>String(0)\<close> is \<open>"0"\<close>; a row whose
  \<open>isconsent\<close> is \<open>false\<close> is not found by the term \<open>false\<close>, while \<open>true\<close> is found by
  \<open>true\<close>.
\<close>

theorem filter_drops_falsy_values:
  "filteredData [[(''qty'', JNum 0)]] ''0'' [''qty''] = []
   \<and> js_String (field [(''qty'', JNum 0)] ''qty'') = ''0''
   \<and> filteredData [[(''isconsent'', JBool False)]] ''false'' [''isconsent''] = []
   \<and> js_String (field [(''isconsent'', JBool False)] ''isconsent'') = ''false''
   \<and> filteredData [[(''isconsent'', JBool True)]] ''true'' [''isconsent'']
       = [[(''isconsent'', JBool True)]]"
  by code_simp

section \<open>Properties of loading\<close>

text \<open>The fixture variant resets the page and the selection whatever the API and the
  callback do; the API variant does when the API call resolves.\<close>

lemma fetchData_resets: "currentPage (fetchData h st) = 1 \<and> selectedRows (fetchData h st) = {||}"
  by (simp add: fetchData_def Let_def split: callback.split)

lemma fetchData_api_resets:
  "bound h \<Longrightarrow> api h = Resolves resp \<Longrightarrow>
   currentPage (fetchData_api h st) = 1 \<and> selectedRows (fetchData_api h st) = {||}"
  by (simp add: fetchData_api_def Let_def split: callback.split)

lemma fetchData_api_rejected:
  "bound h \<Longrightarrow> api h = Rejects msg \<Longrightarrow>
   currentPage (fetchData_api h st) = currentPage st
   \<and> selectedRows (fetchData_api h st) = selectedRows st
   \<and> allRows (fetchData_api h st) = []"
  by (simp add: fetchData_api_def)

text \<open>
  C3. In the API variant a rejected API call reaches the \<open>catch\<close> block before the
  reset: the rows are emptied, but the page stays at 3 and the two selected identities
  stay selected. In the data-provider variant new rows reset the page and leave the
  selection as it was.
\<close>

theorem failed_fetch_keeps_page_and_selection:
  "currentPage (fetchData_api \<lparr>bound = True, api = Rejects ''Network Error'', onRefresh = NotSupplied\<rparr>
      (initial\<lparr>currentPage := 3, selectedRows := {|JStr ''a'', JStr ''b''|}\<rparr>)) = 3
   \<and> selectedRows (fetchData_api \<lparr>bound = True, api = Rejects ''Network Error'', onRefresh = NotSupplied\<rparr>
      (initial\<lparr>currentPage := 3, selectedRows := {|JStr ''a'', JStr ''b''|}\<rparr>))
       = {|JStr ''a'', JStr ''b''|}
   \<and> allRows (fetchData_api \<lparr>bound = True, api = Rejects ''Network Error'', onRefresh = NotSupplied\<rparr>
      (initial\<lparr>currentPage := 3, selectedRows := {|JStr ''a'', JStr ''b''|}\<rparr>)) = []
   \<and> selectedRows (rowsChanged_provider []
        (initial\<lparr>currentPage := 3, selectedRows := {|JStr ''a'', JStr ''b''|}\<rparr>))
       = {|JStr ''a'', JStr ''b''|}"
  by (simp add: fetchData_api_def initial_def rowsChanged_provider_def)

section \<open>Properties of value formatting\<close>

lemma formatValue_provider_agrees:
  "t \<noteq> ''options'' \<Longrightarrow> formatValue_provider loc v t = formatValue loc v t"
  by (simp add: formatValue_def formatValue_provider_def)

lemma formatValue_provider_options:
  "v \<noteq> JNull \<Longrightarrow> v \<noteq> JUndefined \<Longrightarrow> formatValue_provider loc v ''options'' = JStr (js_String v)"
  by (simp add: formatValue_provider_def)

text \<open>
  C9, as stated, gives the stringification of the value for every type other than
  boolean, number and options. The type \<open>datetime\<close> is such a type, and the code has a
  case for it: the fixture's \<open>created_at\<close> is shown as a date, not as the string it is.
\<close>

theorem formatValue_datetime_counterexample:
  "formatValue usLocale (JStr ''2025-07-29T11:36:10.219Z'') ''datetime'' = JStr ''7/29/2025''
   \<and> JStr (js_String (JStr ''2025-07-29T11:36:10.219Z'')) \<noteq> JStr ''7/29/2025''"
  by code_simp

text \<open>
  C9, amended. \<open>formatValue\<close> returns the empty string for \<open>null\<close> and \<open>undefined\<close>;
  otherwise the host's date string for the type \<open>datetime\<close>; \<open>Yes\<close> or \<open>No\<close> by
  truthiness for \<open>boolean\<close>; for \<open>number\<close> the host's number string when the value is a
  number and the value itself otherwise; for \<open>options\<close> the elements joined with a comma
  and a space when the value is an array and the value itself otherwise; and the
  stringification of the value for every other type.
\<close>

theorem formatValue_cases:
  "(v = JNull \<or> v = JUndefined \<longrightarrow> formatValue loc v t = JStr [])
   \<and> (v \<noteq> JNull \<and> v \<noteq> JUndefined \<longrightarrow>
        (t = ''datetime'' \<longrightarrow> formatValue loc v t = JStr (dateString loc v))
      \<and> (t = ''number'' \<longrightarrow>
           formatValue loc v t = (case v of JNum n \<Rightarrow> JStr (numberString loc n) | _ \<Rightarrow> v))
      \<and> (t = ''boolean'' \<longrightarrow> formatValue loc v t = JStr (if truthy v then ''Yes'' else ''No''))
      \<and> (t = ''options'' \<longrightarrow>
           formatValue loc v t = (case v of JArr xs \<Rightarrow> JStr (array_join '', '' xs) | _ \<Rightarrow> v))
      \<and> (t \<notin> {''datetime'', ''number'', ''boolean'', ''options''} \<longrightarrow>
           formatValue loc v t = JStr (js_String v)))"
  by (simp add: formatValue_def)

theorem formatValue_cases_witness:
  "formatValue usLocale JNull ''number'' = JStr []
   \<and> formatValue usLocale (JNum 1234567) ''number'' = JStr ''1,234,567''
   \<and> formatValue usLocale (JStr ''12'') ''number'' = JStr ''12''
   \<and> formatValue usLocale (JBool False) ''boolean'' = JStr ''No''
   \<and> formatValue usLocale (JArr [JStr ''a'', JStr ''b'']) ''options'' = JStr ''a, b''
   \<and> formatValue usLocale (JStr ''2025-08-04T13:59:36.315Z'') ''datetime'' = JStr ''8/4/2025''
   \<and> formatValue usLocale (JBool False) ''text'' = JStr ''false''"
proof -
  have n: "numberString usLocale 1234567 = ''1,234,567''"
    by (simp add: usLocale_def usNumberString_def nat_digits.simps digit_char_def) code_simp
  have d: "dateString usLocale (JStr ''2025-08-04T13:59:36.315Z'') = ''8/4/2025''" by code_simp
  have j: "array_join '', '' [JStr ''a'', JStr ''b''] = ''a, b''" by code_simp
  have "formatValue usLocale JNull ''number'' = JStr []"
    using formatValue_cases [of JNull usLocale "''number''"] by simp
  moreover have "formatValue usLocale (JNum 1234567) ''number'' = JStr ''1,234,567''"
    using formatValue_cases [of "JNum 1234567" usLocale "''number''"] by (simp add: n)
  moreover have "formatValue usLocale (JStr ''12'') ''number'' = JStr ''12''"
    using formatValue_cases [of "JStr ''12''" usLocale "''number''"] by simp
  moreover have "formatValue usLocale (JBool False) ''boolean'' = JStr ''No''"
    using formatValue_cases [of "JBool False" usLocale "''boolean''"] by simp
  moreover have "formatValue usLocale (JArr [JStr ''a'', JStr ''b'']) ''options'' = JStr ''a, b''"
    using formatValue_cases [of "JArr [JStr ''a'', JStr ''b'']" usLocale "''options''"]
    by (simp add: j)
  moreover have "formatValue usLocale (JStr ''2025-08-04T13:59:36.315Z'') ''datetime''
      = JStr ''8/4/2025''"
    using formatValue_cases [of "JStr ''2025-08-04T13:59:36.315Z''" usLocale "''datetime''"]
    by (simp add: d)
  moreover have "formatValue usLocale (JBool False) ''text'' = JStr ''false''"
    using formatValue_cases [of "JBool False" usLocale "''text''"] by simp
  ultimately show ?thesis by blast
qed

section \<open>Properties of the sort stage\<close>

text \<open>The relational operator is asymmetric on all values, so the comparator is
  positive exactly when its second row is strictly first in the chosen direction.\<close>

lemma str_lt_asym: "str_lt s t \<Longrightarrow> \<not> str_lt t s"
  by (induction s t rule: str_lt.induct) auto

lemma js_lt_asym: "js_lt a b \<Longrightarrow> \<not> js_lt b a"
  by (auto simp: js_lt_def dest: str_lt_asym split: option.splits)

lemma compareRows_Asc_pos: "compareRows k Asc a b > 0 \<longleftrightarrow> js_lt (field b k) (field a k)"
  using js_lt_asym [of "field b k" "field a k"] by (auto simp: compareRows_def Let_def)

lemma compareRows_Desc_pos: "compareRows k Desc a b > 0 \<longleftrightarrow> js_lt (field a k) (field b k)"
  by (auto simp: compareRows_def Let_def)

lemma mset_insert_by: "mset (insert_by c x ys) = add_mset x (mset ys)"
  by (induction ys) auto

lemma mset_js_sort: "mset (js_sort c xs) = mset xs"
  by (induction xs) (auto simp: js_sort_def mset_insert_by)

lemma set_js_sort: "set (js_sort c xs) = set xs"
  using mset_js_sort [of c xs] by (metis set_mset_mset)

lemma set_insert_by: "set (insert_by c x ys) = insert x (set ys)"
  using mset_insert_by [of c x ys] by (metis set_mset_mset set_mset_add_mset_insert)

lemma sorted_insert_by:
  assumes tr: "\<And>a b d. a \<in> A \<Longrightarrow> b \<in> A \<Longrightarrow> d \<in> A \<Longrightarrow> \<not> c a b > 0 \<Longrightarrow> \<not> c b d > 0 \<Longrightarrow> \<not> c a d > 0"
    and asym: "\<And>a b. c a b > 0 \<Longrightarrow> \<not> c b a > 0"
    and "x \<in> A" "set ys \<subseteq> A" "sorted_wrt (\<lambda>a b. \<not> c a b > 0) ys"
  shows "sorted_wrt (\<lambda>a b. \<not> c a b > 0) (insert_by c x ys)"
  using assms(3-)
proof (induction ys)
  case Nil
  then show ?case by simp
next
  case (Cons y ys)
  show ?case
  proof (cases "c x y > 0")
    case True
    have "\<not> c y z > 0" if "z \<in> set (insert_by c x ys)" for z
      using that Cons.prems True asym by (auto simp: set_insert_by)
    moreover have "sorted_wrt (\<lambda>a b. \<not> c a b > 0) (insert_by c x ys)"
      using Cons by simp
    ultimately show ?thesis using True by simp
  next
    case False
    have "\<not> c x z > 0" if "z \<in> set ys" for z
    proof -
      have "\<not> c y z > 0" using Cons.prems that by simp
      then show ?thesis using tr [of x y z] False Cons.prems that by auto
    qed
    then show ?thesis using False Cons.prems by auto
  qed
qed

lemma sorted_js_sort:
  assumes tr: "\<And>a b d. a \<in> set xs \<Longrightarrow> b \<in> set xs \<Longrightarrow> d \<in> set xs \<Longrightarrow>
                 \<not> c a b > 0 \<Longrightarrow> \<not> c b d > 0 \<Longrightarrow> \<not> c a d > 0"
    and asym: "\<And>a b. c a b > 0 \<Longrightarrow> \<not> c b a > 0"
  shows "sorted_wrt (\<lambda>a b. \<not> c a b > 0) (js_sort c xs)"
proof -
  have "set ys \<subseteq> set xs \<Longrightarrow> sorted_wrt (\<lambda>a b. \<not> c a b > 0) (js_sort c ys)" for ys
  proof (induction ys)
    case Nil
    then show ?case by (simp add: js_sort_def)
  next
    case (Cons y ys)
    have y: "y \<in> set xs" and ys: "set (js_sort c ys) \<subseteq> set xs"
      using Cons.prems by (simp_all add: set_js_sort)
    have srt: "sorted_wrt (\<lambda>a b. \<not> c a b > 0) (js_sort c ys)"
      using Cons by simp
    have "sorted_wrt (\<lambda>a b. \<not> c a b > 0) (insert_by c y (js_sort c ys))"
      using tr asym y ys srt by (rule sorted_insert_by [where A = "set xs"])
    then show ?case by (simp add: js_sort_def)
  qed
  then show ?thesis by simp
qed

lemma filter_insert_by_out: "\<not> P x \<Longrightarrow> filter P (insert_by c x ys) = filter P ys"
  by (induction ys) auto

lemma filter_insert_by_in:
  "P x \<Longrightarrow> (\<And>y. y \<in> set ys \<Longrightarrow> c x y > 0 \<Longrightarrow> \<not> P y) \<Longrightarrow>
   filter P (insert_by c x ys) = x # filter P ys"
  by (induction ys) auto

lemma filter_js_sort:
  assumes "\<And>x y. x \<in> set xs \<Longrightarrow> y \<in> set xs \<Longrightarrow> P x \<Longrightarrow> c x y > 0 \<Longrightarrow> \<not> P y"
  shows "filter P (js_sort c xs) = filter P xs"
proof -
  have "set ys \<subseteq> set xs \<Longrightarrow> filter P (js_sort c ys) = filter P ys" for ys
  proof (induction ys)
    case Nil
    then show ?case by (simp add: js_sort_def)
  next
    case (Cons y ys)
    show ?case
    proof (cases "P y")
      case True
      have "filter P (insert_by c y (js_sort c ys)) = y # filter P (js_sort c ys)"
        by (rule filter_insert_by_in) (use True Cons.prems assms in \<open>auto simp: set_js_sort\<close>)
      then show ?thesis using Cons True by (simp add: js_sort_def)
    next
      case False
      then show ?thesis using Cons by (simp add: js_sort_def filter_insert_by_out)
    qed
  qed
  then show ?thesis by simp
qed

lemma stable_sorted_unique:
  fixes c :: "'a \<Rightarrow> 'a \<Rightarrow> int"
  assumes asym: "\<And>a b. c a b > 0 \<Longrightarrow> \<not> c b a > 0"
  shows "sorted_wrt (\<lambda>a b. \<not> c a b > 0) ys \<Longrightarrow> sorted_wrt (\<lambda>a b. \<not> c a b > 0) zs \<Longrightarrow>
         mset ys = mset zs \<Longrightarrow>
         (\<And>x. x \<in> set ys \<Longrightarrow>
            filter (\<lambda>y. \<not> c x y > 0 \<and> \<not> c y x > 0) ys = filter (\<lambda>y. \<not> c x y > 0 \<and> \<not> c y x > 0) zs) \<Longrightarrow>
         ys = zs"
proof (induction ys arbitrary: zs)
  case Nil
  then show ?case by simp
next
  case (Cons y ys)
  from Cons.prems(3) obtain z zs' where zs: "zs = z # zs'" by (cases zs) auto
  have refl: "\<not> c a a > 0" for a using asym [of a a] by blast
  have "y \<in> set zs" using Cons.prems(3) by (metis list.set_intros(1) set_mset_mset)
  then have zy: "\<not> c z y > 0" using Cons.prems(2) refl by (auto simp: zs)
  have "z \<in> set (y # ys)" using Cons.prems(3) zs by (metis list.set_intros(1) set_mset_mset)
  then have yz: "\<not> c y z > 0" using Cons.prems(1) refl by auto
  have "filter (\<lambda>b. \<not> c y b > 0 \<and> \<not> c b y > 0) (y # ys) = filter (\<lambda>b. \<not> c y b > 0 \<and> \<not> c b y > 0) zs"
    by (rule Cons.prems(4)) simp
  then have eq: "y = z" using zy yz refl by (simp add: zs)
  have "ys = zs'"
  proof (rule Cons.IH)
    show "sorted_wrt (\<lambda>a b. \<not> c a b > 0) ys" using Cons.prems(1) by simp
    show "sorted_wrt (\<lambda>a b. \<not> c a b > 0) zs'" using Cons.prems(2) zs by simp
    show "mset ys = mset zs'" using Cons.prems(3) zs eq by simp
    fix x assume "x \<in> set ys"
    then have "filter (\<lambda>b. \<not> c x b > 0 \<and> \<not> c b x > 0) (y # ys) = filter (\<lambda>b. \<not> c x b > 0 \<and> \<not> c b x > 0) (y # zs')"
      using Cons.prems(4) [of x] zs eq by simp
    then show "filter (\<lambda>b. \<not> c x b > 0 \<and> \<not> c b x > 0) ys = filter (\<lambda>b. \<not> c x b > 0 \<and> \<not> c b x > 0) zs'"
      by (simp split: if_splits)
  qed
  then show ?case using zs eq by simp
qed

text \<open>On a consistent comparator the model is no choice: a list that is a permutation of
  the input, in the comparator's order, with ties in input order, is the list \<open>js_sort\<close>
  returns.\<close>

lemma js_sort_unique:
  fixes c :: "'a \<Rightarrow> 'a \<Rightarrow> int"
  assumes tr: "\<And>a b d. a \<in> set xs \<Longrightarrow> b \<in> set xs \<Longrightarrow> d \<in> set xs \<Longrightarrow>
                 \<not> c a b > 0 \<Longrightarrow> \<not> c b d > 0 \<Longrightarrow> \<not> c a d > 0"
    and asym: "\<And>a b. c a b > 0 \<Longrightarrow> \<not> c b a > 0"
    and perm: "mset ys = mset xs"
    and sorted: "sorted_wrt (\<lambda>a b. \<not> c a b > 0) ys"
    and stable: "\<And>x. x \<in> set xs \<Longrightarrow>
                   filter (\<lambda>y. \<not> c x y > 0 \<and> \<not> c y x > 0) ys
                   = filter (\<lambda>y. \<not> c x y > 0 \<and> \<not> c y x > 0) xs"
  shows "ys = js_sort c xs"
proof (rule stable_sorted_unique [of c])
  show "c a b > 0 \<Longrightarrow> \<not> c b a > 0" for a b by (rule asym)
  show "sorted_wrt (\<lambda>a b. \<not> c a b > 0) ys" by (rule sorted)
  show "sorted_wrt (\<lambda>a b. \<not> c a b > 0) (js_sort c xs)" using tr asym by (rule sorted_js_sort)
  show "mset ys = mset (js_sort c xs)" using perm by (simp add: mset_js_sort)
next
  fix x assume "x \<in> set ys"
  then have x: "x \<in> set xs" using perm by (metis set_mset_mset)
  have "filter (\<lambda>y. \<not> c x y > 0 \<and> \<not> c y x > 0) (js_sort c xs)
      = filter (\<lambda>y. \<not> c x y > 0 \<and> \<not> c y x > 0) xs"
  proof (rule filter_js_sort)
    fix a b
    assume ab: "a \<in> set xs" "b \<in> set xs" and a: "\<not> c x a > 0 \<and> \<not> c a x > 0"
      and gt: "c a b > 0"
    show "\<not> (\<not> c x b > 0 \<and> \<not> c b x > 0)"
    proof
      assume "\<not> c x b > 0 \<and> \<not> c b x > 0"
      then have "\<not> c a b > 0" using tr [of a x b] ab x a by blast
      then show False using gt by simp
    qed
  qed
  then show "filter (\<lambda>y. \<not> c x y > 0 \<and> \<not> c y x > 0) ys
      = filter (\<lambda>y. \<not> c x y > 0 \<and> \<not> c y x > 0) (js_sort c xs)"
    using stable [OF x] by simp
qed

lemma consistentOrder_trans:
  "consistentOrder k R \<Longrightarrow> a \<in> set R \<Longrightarrow> b \<in> set R \<Longrightarrow> d \<in> set R \<Longrightarrow>
   keyLe k a b \<Longrightarrow> keyLe k b d \<Longrightarrow> keyLe k a d"
  unfolding consistentOrder_def by blast

lemma sorted_ascending:
  assumes "consistentOrder k R"
  shows "sorted_wrt (keyLe k) (js_sort (compareRows k Asc) R)"
proof -
  have "sorted_wrt (\<lambda>a b. \<not> compareRows k Asc a b > 0) (js_sort (compareRows k Asc) R)"
  proof (rule sorted_js_sort)
    fix a b d
    assume "a \<in> set R" "b \<in> set R" "d \<in> set R"
      "\<not> compareRows k Asc a b > 0" "\<not> compareRows k Asc b d > 0"
    then show "\<not> compareRows k Asc a d > 0"
      using consistentOrder_trans [OF assms, of a b d]
      by (simp add: compareRows_Asc_pos keyLe_def)
  next
    fix a b
    assume "compareRows k Asc a b > 0"
    then show "\<not> compareRows k Asc b a > 0"
      using js_lt_asym by (simp add: compareRows_Asc_pos)
  qed
  then show ?thesis
    by (rule sorted_wrt_mono_rel [rotated]) (simp add: compareRows_Asc_pos keyLe_def)
qed

lemma sorted_descending:
  assumes "consistentOrder k R"
  shows "sorted_wrt (\<lambda>a b. keyLe k b a) (js_sort (compareRows k Desc) R)"
proof -
  have "sorted_wrt (\<lambda>a b. \<not> compareRows k Desc a b > 0) (js_sort (compareRows k Desc) R)"
  proof (rule sorted_js_sort)
    fix a b d
    assume "a \<in> set R" "b \<in> set R" "d \<in> set R"
      "\<not> compareRows k Desc a b > 0" "\<not> compareRows k Desc b d > 0"
    then show "\<not> compareRows k Desc a d > 0"
      using consistentOrder_trans [OF assms, of d b a]
      by (simp add: compareRows_Desc_pos keyLe_def)
  next
    fix a b
    assume "compareRows k Desc a b > 0"
    then show "\<not> compareRows k Desc b a > 0"
      using js_lt_asym by (simp add: compareRows_Desc_pos)
  qed
  then show ?thesis
    by (rule sorted_wrt_mono_rel [rotated]) (simp add: compareRows_Desc_pos keyLe_def)
qed

lemma ties_keep_order:
  assumes "consistentOrder k R" "x \<in> set R"
  shows "filter (sameKey k x) (js_sort (compareRows k d) R) = filter (sameKey k x) R"
proof (rule filter_js_sort)
  fix a b
  assume ab: "a \<in> set R" "b \<in> set R" and a: "sameKey k x a"
    and gt: "compareRows k d a b > 0"
  show "\<not> sameKey k x b"
  proof
    assume b: "sameKey k x b"
    have "keyLe k a b"
      using consistentOrder_trans [OF assms(1), of a x b] ab assms(2) a b
      by (simp add: sameKey_def keyLe_def)
    moreover have "keyLe k b a"
      using consistentOrder_trans [OF assms(1), of b x a] ab assms(2) a b
      by (simp add: sameKey_def keyLe_def)
    ultimately show False
      using gt by (cases d) (simp_all add: compareRows_Asc_pos compareRows_Desc_pos keyLe_def)
  qed
qed

lemma consistentOrder_cong: "set R' = set R \<Longrightarrow> consistentOrder k R' = consistentOrder k R"
  by (simp add: consistentOrder_def)

lemma sameKey_compareRows:
  "sameKey k x y \<longleftrightarrow> \<not> compareRows k d x y > 0 \<and> \<not> compareRows k d y x > 0"
  by (cases d) (auto simp: sameKey_def compareRows_Asc_pos compareRows_Desc_pos)

text \<open>Sorting descending what was sorted ascending is sorting the input descending.\<close>

lemma descending_after_ascending:
  assumes "consistentOrder k R"
  shows "js_sort (compareRows k Desc) (js_sort (compareRows k Asc) R)
       = js_sort (compareRows k Desc) R"
proof (rule js_sort_unique)
  fix a b d
  assume "a \<in> set R" "b \<in> set R" "d \<in> set R"
    "\<not> compareRows k Desc a b > 0" "\<not> compareRows k Desc b d > 0"
  then show "\<not> compareRows k Desc a d > 0"
    using consistentOrder_trans [OF assms, of d b a]
    by (simp add: compareRows_Desc_pos keyLe_def)
next
  fix a b
  assume "compareRows k Desc a b > 0"
  then show "\<not> compareRows k Desc b a > 0"
    using js_lt_asym by (simp add: compareRows_Desc_pos)
next
  show "mset (js_sort (compareRows k Desc) (js_sort (compareRows k Asc) R)) = mset R"
    by (simp add: mset_js_sort)
next
  have setA: "set (js_sort (compareRows k Asc) R) = set R" by (rule set_js_sort)
  have consA: "consistentOrder k (js_sort (compareRows k Asc) R)"
    using assms consistentOrder_cong [OF setA] by simp
  have "sorted_wrt (\<lambda>a b. keyLe k b a)
      (js_sort (compareRows k Desc) (js_sort (compareRows k Asc) R))"
    by (rule sorted_descending [OF consA])
  then show "sorted_wrt (\<lambda>a b. \<not> compareRows k Desc a b > 0)
      (js_sort (compareRows k Desc) (js_sort (compareRows k Asc) R))"
    by (rule sorted_wrt_mono_rel [rotated]) (simp add: compareRows_Desc_pos keyLe_def)
  fix x assume x: "x \<in> set R"
  then have "x \<in> set (js_sort (compareRows k Asc) R)" using setA by simp
  then have "filter (sameKey k x) (js_sort (compareRows k Desc) (js_sort (compareRows k Asc) R))
      = filter (sameKey k x) (js_sort (compareRows k Asc) R)"
    by (rule ties_keep_order [OF consA])
  also have "\<dots> = filter (sameKey k x) R" by (rule ties_keep_order [OF assms x])
  finally show "filter (\<lambda>y. \<not> compareRows k Desc x y > 0 \<and> \<not> compareRows k Desc y x > 0)
        (js_sort (compareRows k Desc) (js_sort (compareRows k Asc) R))
      = filter (\<lambda>y. \<not> compareRows k Desc x y > 0 \<and> \<not> compareRows k Desc y x > 0) R"
    by (simp only: sameKey_compareRows [of k x _ Desc, symmetric])
qed

text \<open>
  C5, as stated for every row list, fails. A row that lacks the key ties with every
  row, since \<open>undefined\<close> compares false both ways. Between a row with key \<open>1\<close> and a
  row with key \<open>2\<close> it leaves nothing to move: sorting ascending and then descending
  returns the list as it was, the row with key \<open>1\<close> still before the row with key \<open>2\<close>.
\<close>

theorem sort_mixed_keys_counterexample:
  "sortedData \<lparr>key = Some ''k'', direction = Desc\<rparr>
     (sortedData \<lparr>key = Some ''k'', direction = Asc\<rparr>
        [[(''k'', JNum 1)], [(''id'', JStr ''b'')], [(''k'', JNum 2)]])
     = [[(''k'', JNum 1)], [(''id'', JStr ''b'')], [(''k'', JNum 2)]]
   \<and> js_lt (field [(''k'', JNum 1)] ''k'') (field [(''k'', JNum 2)] ''k'')
   \<and> sameKey ''k'' [(''k'', JNum 1)] [(''id'', JStr ''b'')]
   \<and> sameKey ''k'' [(''id'', JStr ''b'')] [(''k'', JNum 2)]"
  by code_simp

text \<open>No order of these three rows does what the specification asks: keeping the ties of the
  middle row in place keeps all three rows in place, and that order is not descending.\<close>

lemma no_order_mirrors_mixed_keys:
  assumes "filter (sameKey ''k'' [(''id'', JStr ''b'')]) D
           = filter (sameKey ''k'' [(''id'', JStr ''b'')])
               [[(''k'', JNum 1)], [(''id'', JStr ''b'')], [(''k'', JNum 2)]]"
  shows "\<not> sorted_wrt (\<lambda>a b. keyLe ''k'' b a) D"
proof
  assume "sorted_wrt (\<lambda>a b. keyLe ''k'' b a) D"
  then have "sorted_wrt (\<lambda>a b. keyLe ''k'' b a) (filter (sameKey ''k'' [(''id'', JStr ''b'')]) D)"
    by (rule sorted_wrt_filter)
  moreover have "filter (sameKey ''k'' [(''id'', JStr ''b'')])
      [[(''k'', JNum 1)], [(''id'', JStr ''b'')], [(''k'', JNum 2)]]
      = [[(''k'', JNum 1)], [(''id'', JStr ''b'')], [(''k'', JNum 2)]]"
    by code_simp
  moreover have "\<not> sorted_wrt (\<lambda>a b. keyLe ''k'' b a)
      [[(''k'', JNum 1)], [(''id'', JStr ''b'')], [(''k'', JNum 2)]]"
    by code_simp
  ultimately show False using assms by simp
qed

text \<open>
  C5, amended. For every key and every row list on which the comparator is consistent
  (the key values are totally preordered by \<open><\<close>, as when all are strings or all are
  numbers): the ascending sort is in ascending order of the key; sorting that result
  descending is in descending order of the key; in both, the rows that tie with a given
  row are in the order they had in the input; no row is lost or added; and the result is
  what sorting the input descending gives.
\<close>

theorem sort_stable_and_mirrored:
  assumes "k \<noteq> []" "consistentOrder k R"
  shows "sorted_wrt (keyLe k) (sortedData \<lparr>key = Some k, direction = Asc\<rparr> R)
       \<and> sorted_wrt (\<lambda>a b. keyLe k b a)
           (sortedData \<lparr>key = Some k, direction = Desc\<rparr>
              (sortedData \<lparr>key = Some k, direction = Asc\<rparr> R))
       \<and> (\<forall>x \<in> set R.
             filter (sameKey k x) (sortedData \<lparr>key = Some k, direction = Asc\<rparr> R)
               = filter (sameKey k x) R
           \<and> filter (sameKey k x)
               (sortedData \<lparr>key = Some k, direction = Desc\<rparr>
                  (sortedData \<lparr>key = Some k, direction = Asc\<rparr> R))
               = filter (sameKey k x) R)
       \<and> mset (sortedData \<lparr>key = Some k, direction = Desc\<rparr>
                 (sortedData \<lparr>key = Some k, direction = Asc\<rparr> R)) = mset R
       \<and> sortedData \<lparr>key = Some k, direction = Desc\<rparr>
           (sortedData \<lparr>key = Some k, direction = Asc\<rparr> R)
           = sortedData \<lparr>key = Some k, direction = Desc\<rparr> R"
proof -
  let ?A = "js_sort (compareRows k Asc) R"
  let ?D = "js_sort (compareRows k Desc) ?A"
  have A: "sortedData \<lparr>key = Some k, direction = Asc\<rparr> R = ?A"
    and D: "sortedData \<lparr>key = Some k, direction = Desc\<rparr> ?A = ?D"
    and D': "sortedData \<lparr>key = Some k, direction = Desc\<rparr> R = js_sort (compareRows k Desc) R"
    using assms(1) by (simp_all add: sortedData_def)
  have setA: "set ?A = set R" by (rule set_js_sort)
  have consA: "consistentOrder k ?A"
    using assms(2) consistentOrder_cong [OF setA] by simp
  have 1: "sorted_wrt (keyLe k) ?A" by (rule sorted_ascending [OF assms(2)])
  have 2: "sorted_wrt (\<lambda>a b. keyLe k b a) ?D" by (rule sorted_descending [OF consA])
  have 3: "filter (sameKey k x) ?A = filter (sameKey k x) R" if "x \<in> set R" for x
    by (rule ties_keep_order [OF assms(2) that])
  have 4: "filter (sameKey k x) ?D = filter (sameKey k x) R" if "x \<in> set R" for x
  proof -
    have "x \<in> set ?A" using that setA by simp
    then have "filter (sameKey k x) ?D = filter (sameKey k x) ?A"
      by (rule ties_keep_order [OF consA])
    then show ?thesis using 3 [OF that] by simp
  qed
  have 5: "mset ?D = mset R" by (simp add: mset_js_sort)
  have 6: "?D = js_sort (compareRows k Desc) R"
    by (rule descending_after_ascending [OF assms(2)])
  show ?thesis unfolding A D D' using 1 2 3 4 5 6 by blast
qed

theorem sort_stable_and_mirrored_witness:
  "consistentOrder ''name''
     [[(''id'', JNum 1), (''name'', JStr ''try'')], [(''id'', JNum 2), (''name'', JStr ''ken'')],
      [(''id'', JNum 3), (''name'', JStr ''try'')], [(''id'', JNum 4), (''name'', JStr ''den'')]]
   \<and> sorted_wrt (\<lambda>a b. keyLe ''name'' b a)
        [[(''id'', JNum 1), (''name'', JStr ''try'')], [(''id'', JNum 3), (''name'', JStr ''try'')],
         [(''id'', JNum 2), (''name'', JStr ''ken'')], [(''id'', JNum 4), (''name'', JStr ''den'')]]
   \<and> filter (sameKey ''name'' [(''id'', JNum 3), (''name'', JStr ''try'')])
        [[(''id'', JNum 1), (''name'', JStr ''try'')], [(''id'', JNum 3), (''name'', JStr ''try'')],
         [(''id'', JNum 2), (''name'', JStr ''ken'')], [(''id'', JNum 4), (''name'', JStr ''den'')]]
       = filter (sameKey ''name'' [(''id'', JNum 3), (''name'', JStr ''try'')])
        [[(''id'', JNum 1), (''name'', JStr ''try'')], [(''id'', JNum 2), (''name'', JStr ''ken'')],
         [(''id'', JNum 3), (''name'', JStr ''try'')], [(''id'', JNum 4), (''name'', JStr ''den'')]]"
proof -
  let ?R = "[[(''id'', JNum 1), (''name'', JStr ''try'')], [(''id'', JNum 2), (''name'', JStr ''ken'')],
      [(''id'', JNum 3), (''name'', JStr ''try'')], [(''id'', JNum 4), (''name'', JStr ''den'')]] :: row list"
  let ?D = "[[(''id'', JNum 1), (''name'', JStr ''try'')], [(''id'', JNum 3), (''name'', JStr ''try'')],
      [(''id'', JNum 2), (''name'', JStr ''ken'')], [(''id'', JNum 4), (''name'', JStr ''den'')]] :: row list"
  have k: "''name'' \<noteq> []" by simp
  have c: "consistentOrder ''name'' ?R" by code_simp
  have D: "sortedData \<lparr>key = Some ''name'', direction = Desc\<rparr>
             (sortedData \<lparr>key = Some ''name'', direction = Asc\<rparr> ?R) = ?D"
    by code_simp
  have x: "[(''id'', JNum 3), (''name'', JStr ''try'')] \<in> set ?R" by simp
  note t = sort_stable_and_mirrored [OF k c, unfolded D]
  from t have "sorted_wrt (\<lambda>a b. keyLe ''name'' b a) ?D" by (rule conjunct1 [OF conjunct2])
  moreover from t x
  have "filter (sameKey ''name'' [(''id'', JNum 3), (''name'', JStr ''try'')]) ?D
      = filter (sameKey ''name'' [(''id'', JNum 3), (''name'', JStr ''try'')]) ?R"
    by blast
  ultimately show ?thesis using c by blast
qed

end
